theory Spec2Isabelle
  imports Main "HOL-Library.AList"
begin

section \<open>Data model\<close>

text \<open>
  The client side of pw_transfer (\<^verbatim>\<open>pw_transfer/py/pw_transfer/transfer.py\<close>).
  Python \<^verbatim>\<open>bytes\<close> are lists of 8-bit characters, Python integers are \<open>int\<close>, and the
  unsigned protobuf fields, as the counters that only grow from 0, are \<open>nat\<close>. The
  range check that protobuf makes when a field is assigned is not part of the model.
\<close>

type_synonym bytes = string

text \<open>
  Modelled from the spec: \<^verbatim>\<open>pw_status.Status\<close> is not among the sources. The spec names
  the values OK, DEADLINE_EXCEEDED, OUT_OF_RANGE, FAILED_PRECONDITION and INTERNAL, and the
  pass-through of any other server code, which is \<open>Other\<close> here. A chunk carries the
  status itself, so \<^verbatim>\<open>error.value\<close> and \<^verbatim>\<open>Status(chunk.status)\<close> are the identity.
\<close>

datatype Status = OK | DEADLINE_EXCEEDED | OUT_OF_RANGE | FAILED_PRECONDITION | INTERNAL
  | Other nat

definition ok :: "Status \<Rightarrow> bool" where
  "ok s = (s = OK)"

text \<open>
  Modelled from the spec: the \<^verbatim>\<open>Chunk\<close> message (\<^verbatim>\<open>pw_transfer.transfer_pb2\<close>) is not
  among the sources. The fields are those of the spec's table. The fields the code tests
  with \<^verbatim>\<open>HasField\<close> are options; \<^verbatim>\<open>pending_bytes\<close> is an option too and is read with its
  default 0 when unset. \<open>offset\<close> and \<open>data\<close> have the defaults 0 and the empty string.
\<close>

record Chunk =
  transfer_id :: nat
  pending_bytes :: "nat option"
  max_chunk_size_bytes :: "nat option"
  min_delay_microseconds :: "nat option"
  offset :: nat
  data :: bytes
  remaining_bytes :: "nat option"
  status :: "Status option"

text \<open>\<^verbatim>\<open>Chunk(transfer_id=i)\<close>: every other field unset.\<close>

definition new_Chunk :: "nat \<Rightarrow> Chunk" where
  "new_Chunk i = \<lparr>transfer_id = i, pending_bytes = None, max_chunk_size_bytes = None,
     min_delay_microseconds = None, offset = 0, data = [], remaining_bytes = None,
     status = None\<rparr>"

text \<open>Reading an unset numeric field gives 0.\<close>

definition field_value :: "nat option \<Rightarrow> nat" where
  "field_value f = (case f of None \<Rightarrow> 0 | Some n \<Rightarrow> n)"

text \<open>Python truth value of an \<^verbatim>\<open>Optional[int]\<close>: false for \<^verbatim>\<open>None\<close> and for 0.\<close>

definition truthy :: "nat option \<Rightarrow> bool" where
  "truthy f = (case f of None \<Rightarrow> False | Some n \<Rightarrow> n \<noteq> 0)"

text \<open>
  The exceptions of the code. A function that can raise returns the exception, if any,
  together with the state it leaves behind: Python does not undo the assignments made
  before a raise.
\<close>

datatype exn = ValueError | KeyError | RuntimeError | AssertionError | Error nat Status

section \<open>The timer\<close>

text \<open>
  \<^verbatim>\<open>_Timer\<close>. \<open>task\<close> is the field \<^verbatim>\<open>_task\<close>: the asyncio task the timer refers to, if
  any. Tasks are numbered in the order of their creation (\<open>created\<close> counts them).
  \<open>sleeping\<close> is the part of the event loop that belongs to this timer: the tasks that
  are inside \<^verbatim>\<open>asyncio.sleep\<close>, neither cancelled nor woken yet. The duration of the
  sleep is left out: any sleeping task may wake.
\<close>

record Timer =
  task :: "nat option"
  sleeping :: "nat list"
  created :: nat

definition new_Timer :: Timer where
  "new_Timer = \<lparr>task = None, sleeping = [], created = 0\<rparr>"

text \<open>\<^verbatim>\<open>stop\<close>: cancelling a task takes it out of its sleep; then \<^verbatim>\<open>_task = None\<close>.\<close>

definition stop :: "Timer \<Rightarrow> Timer" where
  "stop tm = (case task tm of
      None \<Rightarrow> tm
    | Some k \<Rightarrow> tm\<lparr>sleeping := removeAll k (sleeping tm), task := None\<rparr>)"

definition start :: "Timer \<Rightarrow> Timer" where
  "start tm =
    (let tm1 = stop tm; k = created tm1
     in tm1\<lparr>task := Some k, sleeping := sleeping tm1 @ [k], created := Suc k\<rparr>)"

section \<open>Transfers\<close>

text \<open>
  \<^verbatim>\<open>_Transfer\<close> and its two subclasses. The fields \<^verbatim>\<open>id\<close>, \<^verbatim>\<open>status\<close>, \<^verbatim>\<open>data\<close> and
  \<^verbatim>\<open>done\<close> carry the prefix \<open>tr_\<close>; the private fields that both subclasses have carry
  \<open>w_\<close> or \<open>r_\<close>. \<open>tr_done\<close> is whether the event is set. The callbacks
  \<^verbatim>\<open>_send_chunk\<close> and \<^verbatim>\<open>_end_transfer\<close> are the first arguments of every method that
  uses them; they act on an environment \<open>'e\<close> (the Manager below). The timeout
  \<^verbatim>\<open>_response_timeout_s\<close> is only ever handed to the timer and is left out with the
  durations. \<open>asleep\<close> is, like \<open>sleeping\<close> of a timer, the part of the event loop that
  belongs to a write transfer: the number of \<^verbatim>\<open>handle_chunk\<close> tasks of the transfer that
  are inside the \<^verbatim>\<open>asyncio.sleep\<close> between two chunks.
\<close>

record Transfer =
  tr_id :: nat
  tr_status :: Status
  tr_data :: bytes
  tr_done :: bool
  response_timer :: Timer

record WriteTransfer = Transfer +
  w_offset :: nat
  max_bytes_to_send :: int
  w_max_chunk_size :: nat
  w_chunk_delay_us :: "nat option"
  asleep :: nat

record ReadTransfer = Transfer +
  chunk_timeout_count :: int
  max_retries :: int
  max_bytes_to_receive :: nat
  r_max_chunk_size :: nat
  r_chunk_delay_us :: "nat option"
  remaining_transfer_size :: "nat option"
  r_offset :: nat
  r_pending_bytes :: int

type_synonym 'e send_chunk = "Chunk \<Rightarrow> 'e \<Rightarrow> exn option \<times> 'e"

type_synonym ('t, 'e) end_transfer = "'t \<Rightarrow> 'e \<Rightarrow> exn option \<times> 'e"

text \<open>\<^verbatim>\<open>_Transfer.finish\<close>.\<close>

definition finish :: "('a Transfer_scheme, 'e) end_transfer \<Rightarrow> Status \<Rightarrow>
    'a Transfer_scheme \<Rightarrow> 'e \<Rightarrow> exn option \<times> 'a Transfer_scheme \<times> 'e" where
  "finish end_transfer st t e =
    (let t1 = t\<lparr>response_timer := stop (response_timer t)\<rparr>;
         t2 = t1\<lparr>tr_status := st\<rparr>;
         t3 = t2\<lparr>tr_done := True\<rparr>;
         (x, e1) = end_transfer t3 e
     in (x, t3, e1))"

text \<open>\<^verbatim>\<open>_Transfer._send_error\<close>.\<close>

definition send_error :: "'e send_chunk \<Rightarrow> ('a Transfer_scheme, 'e) end_transfer \<Rightarrow> Status \<Rightarrow>
    'a Transfer_scheme \<Rightarrow> 'e \<Rightarrow> exn option \<times> 'a Transfer_scheme \<times> 'e" where
  "send_error send_chunk end_transfer error t e =
    (case send_chunk ((new_Chunk (tr_id t))\<lparr>status := Some error\<rparr>) e of
       (Some x, e1) \<Rightarrow> (Some x, t, e1)
     | (None, e1) \<Rightarrow> finish end_transfer error t e1)"

text \<open>
  \<^verbatim>\<open>_Timer._run\<close> from the moment task \<open>k\<close> wakes from its sleep: the callback runs, and
  when it returns the timer's \<^verbatim>\<open>_task\<close> is set to \<^verbatim>\<open>None\<close>. A task that was cancelled
  or has already run does not wake. An exception of the callback ends the task before
  the assignment.
\<close>

definition run :: "('a Transfer_scheme \<Rightarrow> 'e \<Rightarrow> exn option \<times> 'a Transfer_scheme \<times> 'e) \<Rightarrow> nat \<Rightarrow>
    'a Transfer_scheme \<Rightarrow> 'e \<Rightarrow> exn option \<times> 'a Transfer_scheme \<times> 'e" where
  "run callback k t e =
    (if k \<notin> set (sleeping (response_timer t)) then (None, t, e)
     else
       let t1 = t\<lparr>response_timer :=
                  (response_timer t)\<lparr>sleeping := removeAll k (sleeping (response_timer t))\<rparr>\<rparr>
       in case callback t1 e of
            (Some x, t2, e2) \<Rightarrow> (Some x, t2, e2)
          | (None, t2, e2) \<Rightarrow>
              (None, t2\<lparr>response_timer := (response_timer t2)\<lparr>task := None\<rparr>\<rparr>, e2))"

subsection \<open>Read transfers\<close>

text \<open>\<^verbatim>\<open>_ReadTransfer.__init__\<close>.\<close>

definition new_ReadTransfer :: "nat \<Rightarrow> int \<Rightarrow> nat \<Rightarrow> nat \<Rightarrow> nat option \<Rightarrow> ReadTransfer" where
  "new_ReadTransfer i retries max_bytes max_chunk delay =
    \<lparr>tr_id = i, tr_status = OK, tr_data = [], tr_done = False, response_timer = new_Timer,
     chunk_timeout_count = 0, max_retries = retries, max_bytes_to_receive = max_bytes,
     r_max_chunk_size = max_chunk, r_chunk_delay_us = delay,
     remaining_transfer_size = None, r_offset = 0, r_pending_bytes = int max_bytes\<rparr>"

text \<open>\<^verbatim>\<open>_ReadTransfer._send_transfer_parameters\<close>.\<close>

definition send_transfer_parameters :: "'e send_chunk \<Rightarrow> ReadTransfer \<Rightarrow> 'e \<Rightarrow>
    exn option \<times> ReadTransfer \<times> 'e" where
  "send_transfer_parameters send_chunk t e =
    (let t1 = t\<lparr>r_pending_bytes := int (max_bytes_to_receive t)\<rparr>;
         chunk = (new_Chunk (tr_id t1))\<lparr>pending_bytes := Some (nat (r_pending_bytes t1)),
                   max_chunk_size_bytes := Some (r_max_chunk_size t1),
                   offset := r_offset t1\<rparr>;
         chunk1 = (if truthy (r_chunk_delay_us t1)
                   then chunk\<lparr>min_delay_microseconds := r_chunk_delay_us t1\<rparr> else chunk)
     in case send_chunk chunk1 e of
          (Some x, e1) \<Rightarrow> (Some x, t1, e1)
        | (None, e1) \<Rightarrow> (None, t1\<lparr>response_timer := start (response_timer t1)\<rparr>, e1))"

text \<open>\<^verbatim>\<open>_ReadTransfer.begin\<close>.\<close>

definition rt_begin :: "'e send_chunk \<Rightarrow> ReadTransfer \<Rightarrow> 'e \<Rightarrow> exn option \<times> ReadTransfer \<times> 'e" where
  "rt_begin send_chunk t e = send_transfer_parameters send_chunk t e"

text \<open>\<^verbatim>\<open>_ReadTransfer.handle_chunk\<close>.\<close>

definition rt_handle_chunk :: "'e send_chunk \<Rightarrow> (ReadTransfer, 'e) end_transfer \<Rightarrow> Chunk \<Rightarrow>
    ReadTransfer \<Rightarrow> 'e \<Rightarrow> exn option \<times> ReadTransfer \<times> 'e" where
  "rt_handle_chunk send_chunk end_transfer chunk t e =
    (let t1 = t\<lparr>response_timer := stop (response_timer t)\<rparr>;
         t2 = t1\<lparr>chunk_timeout_count := 0\<rparr>
     in if offset chunk \<noteq> r_offset t2 then
          send_transfer_parameters send_chunk (t2\<lparr>r_pending_bytes := 0\<rparr>) e
        else
          let t3 = t2\<lparr>tr_data := tr_data t2 @ data chunk\<rparr>;
              t4 = t3\<lparr>r_pending_bytes := r_pending_bytes t3 - int (length (data chunk))\<rparr>;
              t5 = t4\<lparr>r_offset := r_offset t4 + length (data chunk)\<rparr>
          in if remaining_bytes chunk = Some 0 then
               (case send_chunk ((new_Chunk (tr_id t5))\<lparr>status := Some OK\<rparr>) e of
                  (Some x, e1) \<Rightarrow> (Some x, t5, e1)
                | (None, e1) \<Rightarrow> finish end_transfer OK t5 e1)
             else
               let t6 = (case remaining_bytes chunk of
                           None \<Rightarrow> t5
                         | Some n \<Rightarrow> t5\<lparr>remaining_transfer_size := Some n\<rparr>)
               in if r_pending_bytes t6 = 0 then send_transfer_parameters send_chunk t6 e
                  else (None, t6\<lparr>response_timer := start (response_timer t6)\<rparr>, e))"

text \<open>\<^verbatim>\<open>_ReadTransfer._on_timeout\<close>, the callback of a read transfer's timer.\<close>

definition on_timeout :: "'e send_chunk \<Rightarrow> (ReadTransfer, 'e) end_transfer \<Rightarrow>
    ReadTransfer \<Rightarrow> 'e \<Rightarrow> exn option \<times> ReadTransfer \<times> 'e" where
  "on_timeout send_chunk end_transfer t e =
    (let t1 = t\<lparr>chunk_timeout_count := chunk_timeout_count t + 1\<rparr>
     in if chunk_timeout_count t1 > max_retries t1
        then finish end_transfer DEADLINE_EXCEEDED t1 e
        else send_transfer_parameters send_chunk t1 e)"

subsection \<open>Write transfers\<close>

text \<open>\<^verbatim>\<open>_WriteTransfer.__init__\<close>.\<close>

definition new_WriteTransfer :: "nat \<Rightarrow> bytes \<Rightarrow> WriteTransfer" where
  "new_WriteTransfer i d =
    \<lparr>tr_id = i, tr_status = OK, tr_data = d, tr_done = False, response_timer = new_Timer,
     w_offset = 0, max_bytes_to_send = 0, w_max_chunk_size = 0, w_chunk_delay_us = None,
     asleep = 0\<rparr>"

text \<open>\<^verbatim>\<open>_WriteTransfer.begin\<close>.\<close>

definition wt_begin :: "'e send_chunk \<Rightarrow> WriteTransfer \<Rightarrow> 'e \<Rightarrow>
    exn option \<times> WriteTransfer \<times> 'e" where
  "wt_begin send_chunk t e =
    (case send_chunk (new_Chunk (tr_id t)) e of
       (Some x, e1) \<Rightarrow> (Some x, t, e1)
     | (None, e1) \<Rightarrow> (None, t\<lparr>response_timer := start (response_timer t)\<rparr>, e1))"

text \<open>
  \<^verbatim>\<open>_WriteTransfer._next_chunk\<close>. The slices \<^verbatim>\<open>data[o:]\<close> and \<^verbatim>\<open>data[o:o + n]\<close> are
  \<open>drop\<close> and \<open>take\<close> after \<open>drop\<close>; the comparison is on integers, as
  \<^verbatim>\<open>len(self.data) - self._offset\<close> can be negative.
\<close>

definition next_chunk :: "WriteTransfer \<Rightarrow> Chunk" where
  "next_chunk t =
    (let chunk = (new_Chunk (tr_id t))\<lparr>offset := w_offset t\<rparr>
     in if int (length (tr_data t)) - int (w_offset t) \<le> int (w_max_chunk_size t)
        then chunk\<lparr>data := drop (w_offset t) (tr_data t), remaining_bytes := Some 0\<rparr>
        else chunk\<lparr>data := take (w_max_chunk_size t) (drop (w_offset t) (tr_data t))\<rparr>)"

text \<open>
  \<^verbatim>\<open>_WriteTransfer.handle_chunk\<close> from the head of its \<^verbatim>\<open>while\<close> loop to the point where
  the task leaves the scheduler: the \<^verbatim>\<open>await asyncio.sleep\<close> after a chunk when a delay is
  set, an exception, or the return after the timer is started. The task has no local
  state at the \<^verbatim>\<open>await\<close>, so a task asleep is only counted. Without a delay the loop has
  no \<^verbatim>\<open>await\<close> and may run forever; then the result is \<open>None\<close>.
\<close>

partial_function (option) send_loop :: "'e send_chunk \<Rightarrow> WriteTransfer \<Rightarrow> 'e \<Rightarrow>
    (exn option \<times> WriteTransfer \<times> 'e) option" where
  "send_loop send_chunk t e =
    (if max_bytes_to_send t > 0 then
       let write_chunk = next_chunk t;
           t1 = t\<lparr>w_offset := w_offset t + length (data write_chunk)\<rparr>;
           t2 = t1\<lparr>max_bytes_to_send := max_bytes_to_send t1 - int (length (data write_chunk))\<rparr>
       in case send_chunk write_chunk e of
            (Some x, e1) \<Rightarrow> Some (Some x, t2, e1)
          | (None, e1) \<Rightarrow>
              if truthy (w_chunk_delay_us t2) then Some (None, t2\<lparr>asleep := Suc (asleep t2)\<rparr>, e1)
              else send_loop send_chunk t2 e1
     else Some (None, t\<lparr>response_timer := start (response_timer t)\<rparr>, e))"

declare send_loop.simps [code]

text \<open>\<^verbatim>\<open>_WriteTransfer.handle_chunk\<close> from its call to the point where the task leaves the
  scheduler.\<close>

definition wt_handle_chunk :: "'e send_chunk \<Rightarrow> (WriteTransfer, 'e) end_transfer \<Rightarrow> Chunk \<Rightarrow>
    WriteTransfer \<Rightarrow> 'e \<Rightarrow> (exn option \<times> WriteTransfer \<times> 'e) option" where
  "wt_handle_chunk send_chunk end_transfer chunk t e =
    (let t1 = t\<lparr>response_timer := stop (response_timer t)\<rparr>;
         t2 = t1\<lparr>w_offset := offset chunk\<rparr>
     in if w_offset t2 > length (tr_data t2) then
          Some (send_error send_chunk end_transfer OUT_OF_RANGE t2 e)
        else
          let t3 = t2\<lparr>max_bytes_to_send :=
                       min (int (field_value (pending_bytes chunk)))
                           (int (length (tr_data t2)) - int (w_offset t2))\<rparr>;
              t4 = (case max_chunk_size_bytes chunk of
                      None \<Rightarrow> t3 | Some n \<Rightarrow> t3\<lparr>w_max_chunk_size := n\<rparr>);
              t5 = (case min_delay_microseconds chunk of
                      None \<Rightarrow> t4 | Some n \<Rightarrow> t4\<lparr>w_chunk_delay_us := Some n\<rparr>)
          in send_loop send_chunk t5 e)"

text \<open>
  A \<^verbatim>\<open>handle_chunk\<close> task of the transfer wakes from its \<^verbatim>\<open>asyncio.sleep\<close> and goes on at
  the head of the loop. Nothing happens when no task is asleep.
\<close>

definition resume_handle_chunk :: "'e send_chunk \<Rightarrow> WriteTransfer \<Rightarrow> 'e \<Rightarrow>
    (exn option \<times> WriteTransfer \<times> 'e) option" where
  "resume_handle_chunk send_chunk t e =
    (if asleep t = 0 then Some (None, t, e)
     else send_loop send_chunk (t\<lparr>asleep := asleep t - 1\<rparr>) e)"

text \<open>The callback of a write transfer's timer: \<^verbatim>\<open>lambda: self.finish(Status.DEADLINE_EXCEEDED)\<close>.\<close>

definition wt_on_timeout :: "(WriteTransfer, 'e) end_transfer \<Rightarrow> WriteTransfer \<Rightarrow> 'e \<Rightarrow>
    exn option \<times> WriteTransfer \<times> 'e" where
  "wt_on_timeout end_transfer t e = finish end_transfer DEADLINE_EXCEEDED t e"

section \<open>The Manager\<close>

text \<open>
  \<^verbatim>\<open>Manager\<close>. The two registries are Python dictionaries from a transfer id to a
  transfer object: association lists in insertion order from the id to the address of
  the object. \<open>read_objects\<close> and \<open>write_objects\<close> are the store that holds the
  objects, so that a caller still reaches its transfer after the registry dropped it. A
  stream is the number of the RPC call that opened it (\<open>invoked\<close> counts the calls).
  \<open>read_sent\<close> and \<open>write_sent\<close> record, in order, the chunks handed to
  \<^verbatim>\<open>send\<close> of a read and of a write stream.
\<close>

datatype direction = Reading | Writing

record Manager =
  read_transfers :: "(nat \<times> nat) list"
  write_transfers :: "(nat \<times> nat) list"
  read_stream :: "nat option"
  write_stream :: "nat option"
  new_transfer_queue :: "(direction \<times> nat) list"
  read_objects :: "nat \<rightharpoonup> ReadTransfer"
  write_objects :: "nat \<rightharpoonup> WriteTransfer"
  allocated :: nat
  invoked :: nat
  read_sent :: "Chunk list"
  write_sent :: "Chunk list"

text \<open>\<^verbatim>\<open>Manager.__init__\<close>.\<close>

definition new_Manager :: Manager where
  "new_Manager = \<lparr>read_transfers = [], write_transfers = [], read_stream = None,
     write_stream = None, new_transfer_queue = [], read_objects = Map.empty,
     write_objects = Map.empty, allocated = 0, invoked = 0, read_sent = [],
     write_sent = []\<rparr>"

text \<open>\<^verbatim>\<open>Manager._send_read_chunk\<close> and \<^verbatim>\<open>Manager._send_write_chunk\<close>.\<close>

definition send_read_chunk :: "Chunk \<Rightarrow> Manager \<Rightarrow> exn option \<times> Manager" where
  "send_read_chunk chunk m =
    (if read_stream m = None then (Some AssertionError, m)
     else (None, m\<lparr>read_sent := read_sent m @ [chunk]\<rparr>))"

definition send_write_chunk :: "Chunk \<Rightarrow> Manager \<Rightarrow> exn option \<times> Manager" where
  "send_write_chunk chunk m =
    (if write_stream m = None then (Some AssertionError, m)
     else (None, m\<lparr>write_sent := write_sent m @ [chunk]\<rparr>))"

text \<open>
  \<^verbatim>\<open>Manager._end_read_transfer\<close> and \<^verbatim>\<open>Manager._end_write_transfer\<close>:
  \<^verbatim>\<open>del\<close> raises KeyError when the id is not a key.
\<close>

definition end_read_transfer :: "ReadTransfer \<Rightarrow> Manager \<Rightarrow> exn option \<times> Manager" where
  "end_read_transfer transfer m =
    (if map_of (read_transfers m) (tr_id transfer) = None then (Some KeyError, m)
     else (None, m\<lparr>read_transfers := AList.delete (tr_id transfer) (read_transfers m)\<rparr>))"

definition end_write_transfer :: "WriteTransfer \<Rightarrow> Manager \<Rightarrow> exn option \<times> Manager" where
  "end_write_transfer transfer m =
    (if map_of (write_transfers m) (tr_id transfer) = None then (Some KeyError, m)
     else (None, m\<lparr>write_transfers := AList.delete (tr_id transfer) (write_transfers m)\<rparr>))"

text \<open>\<^verbatim>\<open>Manager._open_read_stream\<close> and \<^verbatim>\<open>Manager._open_write_stream\<close>.\<close>

definition open_read_stream :: "Manager \<Rightarrow> Manager" where
  "open_read_stream m = m\<lparr>read_stream := Some (invoked m), invoked := Suc (invoked m)\<rparr>"

definition open_write_stream :: "Manager \<Rightarrow> Manager" where
  "open_write_stream m = m\<lparr>write_stream := Some (invoked m), invoked := Suc (invoked m)\<rparr>"

text \<open>
  \<^verbatim>\<open>Manager._start_read_transfer\<close> and \<^verbatim>\<open>Manager._start_write_transfer\<close>, for the
  transfer object at address \<open>a\<close> with id \<open>i\<close>.
\<close>

definition start_read_transfer :: "nat \<Rightarrow> nat \<Rightarrow> Manager \<Rightarrow> Manager" where
  "start_read_transfer i a m =
    (let m1 = m\<lparr>read_transfers := AList.update i a (read_transfers m)\<rparr>;
         m2 = (if read_stream m1 = None then open_read_stream m1 else m1)
     in m2\<lparr>new_transfer_queue := new_transfer_queue m2 @ [(Reading, a)]\<rparr>)"

definition start_write_transfer :: "nat \<Rightarrow> nat \<Rightarrow> Manager \<Rightarrow> Manager" where
  "start_write_transfer i a m =
    (let m1 = m\<lparr>write_transfers := AList.update i a (write_transfers m)\<rparr>;
         m2 = (if write_stream m1 = None then open_write_stream m1 else m1)
     in m2\<lparr>new_transfer_queue := new_transfer_queue m2 @ [(Writing, a)]\<rparr>)"

text \<open>
  \<^verbatim>\<open>Manager.read\<close> and \<^verbatim>\<open>Manager.write\<close> up to \<^verbatim>\<open>transfer.done.wait()\<close>, where the caller
  blocks. The new transfer object takes the next free address.
\<close>

definition read :: "nat \<Rightarrow> Manager \<Rightarrow> exn option \<times> Manager" where
  "read i m =
    (if map_of (read_transfers m) i \<noteq> None then (Some ValueError, m)
     else
       let a = allocated m;
           m1 = m\<lparr>read_objects := (read_objects m)(a \<mapsto> new_ReadTransfer i 3 8192 1024 None),
                  allocated := Suc a\<rparr>
       in (None, start_read_transfer i a m1))"

definition "write" :: "nat \<Rightarrow> bytes \<Rightarrow> Manager \<Rightarrow> exn option \<times> Manager" where
  "write i d m =
    (if map_of (write_transfers m) i \<noteq> None then (Some ValueError, m)
     else
       let a = allocated m;
           m1 = m\<lparr>write_objects := (write_objects m)(a \<mapsto> new_WriteTransfer i d),
                  allocated := Suc a\<rparr>
       in (None, start_write_transfer i a m1))"

text \<open>
  \<^verbatim>\<open>Manager.read\<close> and \<^verbatim>\<open>Manager.write\<close> after the wait, for the transfer at address
  \<open>a\<close>: \<open>None\<close> while the caller is blocked (the event is unset), else the exception
  raised or the value returned.
\<close>

definition read_return :: "nat \<Rightarrow> Manager \<Rightarrow> (exn + bytes) option" where
  "read_return a m =
    (case read_objects m a of
       None \<Rightarrow> None
     | Some transfer \<Rightarrow>
         if \<not> tr_done transfer then None
         else if \<not> ok (tr_status transfer)
           then Some (Inl (Error (tr_id transfer) (tr_status transfer)))
         else Some (Inr (tr_data transfer)))"

definition write_return :: "nat \<Rightarrow> Manager \<Rightarrow> (exn + unit) option" where
  "write_return a m =
    (case write_objects m a of
       None \<Rightarrow> None
     | Some transfer \<Rightarrow>
         if \<not> tr_done transfer then None
         else if \<not> ok (tr_status transfer)
           then Some (Inl (Error (tr_id transfer) (tr_status transfer)))
         else Some (Inr ()))"

text \<open>
  A method of the transfer object at an address: the object is taken from the store and
  put back as the method leaves it. An address without object is never called.
\<close>

definition on_read_object :: "nat \<Rightarrow> (ReadTransfer \<Rightarrow> Manager \<Rightarrow> exn option \<times> ReadTransfer \<times> Manager) \<Rightarrow>
    Manager \<Rightarrow> exn option \<times> Manager" where
  "on_read_object a method m =
    (case read_objects m a of
       None \<Rightarrow> (None, m)
     | Some t \<Rightarrow>
         (case method t m of
            (x, t1, m1) \<Rightarrow> (x, m1\<lparr>read_objects := (read_objects m1)(a \<mapsto> t1)\<rparr>)))"

definition on_write_object :: "nat \<Rightarrow> (WriteTransfer \<Rightarrow> Manager \<Rightarrow> exn option \<times> WriteTransfer \<times> Manager) \<Rightarrow>
    Manager \<Rightarrow> exn option \<times> Manager" where
  "on_write_object a method m =
    (case write_objects m a of
       None \<Rightarrow> (None, m)
     | Some t \<Rightarrow>
         (case method t m of
            (x, t1, m1) \<Rightarrow> (x, m1\<lparr>write_objects := (write_objects m1)(a \<mapsto> t1)\<rparr>)))"

text \<open>
  The loop \<^verbatim>\<open>for _, transfer in self._read_transfers.items(): transfer.finish(Status.INTERNAL)\<close>
  of \<^verbatim>\<open>_on_read_error\<close>, and the same loop of \<^verbatim>\<open>_on_write_error\<close>. \<open>used\<close> is the size
  of the dictionary when the iteration began: each step of a Python dictionary
  iterator, the one that finds the end included, first compares the size with it and
  raises RuntimeError when they differ. The items are those of the dictionary at the
  start, which is exact as long as the size is unchanged.
\<close>

fun finish_read_items :: "nat \<Rightarrow> (nat \<times> nat) list \<Rightarrow> Manager \<Rightarrow> exn option \<times> Manager" where
  "finish_read_items used [] m =
    (if length (read_transfers m) \<noteq> used then (Some RuntimeError, m) else (None, m))"
| "finish_read_items used (item # items) m =
    (if length (read_transfers m) \<noteq> used then (Some RuntimeError, m)
     else
       (case on_read_object (snd item) (finish end_read_transfer INTERNAL) m of
          (Some x, m1) \<Rightarrow> (Some x, m1)
        | (None, m1) \<Rightarrow> finish_read_items used items m1))"

fun finish_write_items :: "nat \<Rightarrow> (nat \<times> nat) list \<Rightarrow> Manager \<Rightarrow> exn option \<times> Manager" where
  "finish_write_items used [] m =
    (if length (write_transfers m) \<noteq> used then (Some RuntimeError, m) else (None, m))"
| "finish_write_items used (item # items) m =
    (if length (write_transfers m) \<noteq> used then (Some RuntimeError, m)
     else
       (case on_write_object (snd item) (finish end_write_transfer INTERNAL) m of
          (Some x, m1) \<Rightarrow> (Some x, m1)
        | (None, m1) \<Rightarrow> finish_write_items used items m1))"

text \<open>\<^verbatim>\<open>Manager._on_read_error\<close> and \<^verbatim>\<open>Manager._on_write_error\<close>.\<close>

definition on_read_error :: "Status \<Rightarrow> Manager \<Rightarrow> exn option \<times> Manager" where
  "on_read_error st m =
    (if st = FAILED_PRECONDITION then (None, open_read_stream m)
     else
       let m1 = m\<lparr>read_stream := None\<rparr>
       in case finish_read_items (length (read_transfers m1)) (read_transfers m1) m1 of
            (Some x, m2) \<Rightarrow> (Some x, m2)
          | (None, m2) \<Rightarrow> (None, m2\<lparr>read_transfers := []\<rparr>))"

definition on_write_error :: "Status \<Rightarrow> Manager \<Rightarrow> exn option \<times> Manager" where
  "on_write_error st m =
    (if st = FAILED_PRECONDITION then (None, open_write_stream m)
     else
       let m1 = m\<lparr>write_stream := None\<rparr>
       in case finish_write_items (length (write_transfers m1)) (write_transfers m1) m1 of
            (Some x, m2) \<Rightarrow> (Some x, m2)
          | (None, m2) \<Rightarrow> (None, m2\<lparr>write_transfers := []\<rparr>))"

text \<open>
  \<^verbatim>\<open>Manager._handle_chunk\<close>, called with \<^verbatim>\<open>self._read_transfers\<close> and with
  \<^verbatim>\<open>self._write_transfers\<close>. For a write transfer the result is \<open>None\<close> when
  \<^verbatim>\<open>handle_chunk\<close> never returns.
\<close>

definition handle_read_chunk :: "Chunk \<Rightarrow> Manager \<Rightarrow> exn option \<times> Manager" where
  "handle_read_chunk chunk m =
    (case map_of (read_transfers m) (transfer_id chunk) of
       None \<Rightarrow> (None, m)
     | Some a \<Rightarrow>
         (case status chunk of
            None \<Rightarrow> on_read_object a (rt_handle_chunk send_read_chunk end_read_transfer chunk) m
          | Some st \<Rightarrow> on_read_object a (finish end_read_transfer st) m))"

definition handle_write_chunk :: "Chunk \<Rightarrow> Manager \<Rightarrow> (exn option \<times> Manager) option" where
  "handle_write_chunk chunk m =
    (case map_of (write_transfers m) (transfer_id chunk) of
       None \<Rightarrow> Some (None, m)
     | Some a \<Rightarrow>
         (case status chunk of
            None \<Rightarrow>
              (case write_objects m a of
                 None \<Rightarrow> Some (None, m)
               | Some t \<Rightarrow>
                   (case wt_handle_chunk send_write_chunk end_write_transfer chunk t m of
                      None \<Rightarrow> None
                    | Some (x, t1, m1) \<Rightarrow>
                        Some (x, m1\<lparr>write_objects := (write_objects m1)(a \<mapsto> t1)\<rparr>)))
          | Some st \<Rightarrow> Some (on_write_object a (finish end_write_transfer st) m)))"

text \<open>
  The branch \<^verbatim>\<open>if new_transfer in done\<close> of \<^verbatim>\<open>Manager._transfer_event_loop\<close>: the
  transfer at the head of the queue begins.
\<close>

definition begin_new_transfer :: "Manager \<Rightarrow> exn option \<times> Manager" where
  "begin_new_transfer m =
    (case new_transfer_queue m of
       [] \<Rightarrow> (None, m)
     | (Reading, a) # q \<Rightarrow>
         on_read_object a (rt_begin send_read_chunk) (m\<lparr>new_transfer_queue := q\<rparr>)
     | (Writing, a) # q \<Rightarrow>
         on_write_object a (wt_begin send_write_chunk) (m\<lparr>new_transfer_queue := q\<rparr>))"

text \<open>Task \<open>k\<close> of the timer of the transfer at address \<open>a\<close> wakes.\<close>

definition read_timer_wakes :: "nat \<Rightarrow> nat \<Rightarrow> Manager \<Rightarrow> exn option \<times> Manager" where
  "read_timer_wakes a k m =
    on_read_object a (run (on_timeout send_read_chunk end_read_transfer) k) m"

definition write_timer_wakes :: "nat \<Rightarrow> nat \<Rightarrow> Manager \<Rightarrow> exn option \<times> Manager" where
  "write_timer_wakes a k m =
    on_write_object a (run (wt_on_timeout end_write_transfer) k) m"

text \<open>A sleeping \<^verbatim>\<open>handle_chunk\<close> task of the write transfer at address \<open>a\<close> wakes.\<close>

definition write_loop_wakes :: "nat \<Rightarrow> Manager \<Rightarrow> (exn option \<times> Manager) option" where
  "write_loop_wakes a m =
    (case write_objects m a of
       None \<Rightarrow> Some (None, m)
     | Some t \<Rightarrow>
         (case resume_handle_chunk send_write_chunk t m of
            None \<Rightarrow> None
          | Some (x, t1, m1) \<Rightarrow>
              Some (x, m1\<lparr>write_objects := (write_objects m1)(a \<mapsto> t1)\<rparr>)))"

text \<open>
  What happens to a Manager, one event after the other: a caller enters \<^verbatim>\<open>read\<close> or
  \<^verbatim>\<open>write\<close>, the scheduler begins the next new transfer, a chunk arrives from the
  server on a stream, a timer task wakes, a \<^verbatim>\<open>handle_chunk\<close> task of a write transfer
  wakes from the sleep between two chunks, the RPC layer reports a stream error. An
  exception ends the task or the call that raised it and the Manager lives on in the
  state the exception left, so the next event starts there. The result is \<open>None\<close>
  when an event never ends. Events are taken one at a time: a call from another thread
  does not interleave with a step of the scheduler.
\<close>

datatype event =
    Call_read nat
  | Call_write nat bytes
  | Begin_transfer
  | Read_chunk Chunk
  | Write_chunk Chunk
  | Read_timer nat nat
  | Write_timer nat nat
  | Write_resume nat
  | Read_error Status
  | Write_error Status

fun happen :: "event \<Rightarrow> Manager \<Rightarrow> (exn option \<times> Manager) option" where
  "happen (Call_read i) m = Some (read i m)"
| "happen (Call_write i d) m = Some (write i d m)"
| "happen Begin_transfer m = Some (begin_new_transfer m)"
| "happen (Read_chunk chunk) m = Some (handle_read_chunk chunk m)"
| "happen (Write_chunk chunk) m = handle_write_chunk chunk m"
| "happen (Read_timer a k) m = Some (read_timer_wakes a k m)"
| "happen (Write_timer a k) m = Some (write_timer_wakes a k m)"
| "happen (Write_resume a) m = write_loop_wakes a m"
| "happen (Read_error st) m = Some (on_read_error st m)"
| "happen (Write_error st) m = Some (on_write_error st m)"

fun happen_all :: "event list \<Rightarrow> Manager \<Rightarrow> Manager option" where
  "happen_all [] m = Some m"
| "happen_all (ev # evs) m =
    (case happen ev m of None \<Rightarrow> None | Some (x, m1) \<Rightarrow> happen_all evs m1)"

section \<open>Notions used to state the properties\<close>

text \<open>
  The chunk that \<^verbatim>\<open>_send_transfer_parameters\<close> builds from the fields of a read
  transfer (lemma \<open>send_transfer_parameters_open\<close> below).
\<close>

definition parameters_chunk :: "ReadTransfer \<Rightarrow> Chunk" where
  "parameters_chunk t =
    \<lparr>transfer_id = tr_id t, pending_bytes = Some (max_bytes_to_receive t),
     max_chunk_size_bytes = Some (r_max_chunk_size t),
     min_delay_microseconds = (if truthy (r_chunk_delay_us t) then r_chunk_delay_us t else None),
     offset = r_offset t, data = [], remaining_bytes = None, status = None\<rparr>"

text \<open>
  The calls that reach a read transfer object once it is constructed: \<^verbatim>\<open>begin\<close> and
  \<^verbatim>\<open>handle_chunk\<close> from the scheduler, the wake-up of a task of its timer, and
  \<^verbatim>\<open>finish\<close> from \<^verbatim>\<open>Manager._handle_chunk\<close> or from a stream error. \<open>rt_calls\<close> makes
  them one after the other; an exception ends the call that raised it and the next call
  finds the object as the exception left it.
\<close>

datatype read_call = Begin | Handle Chunk | Wake nat | Terminate Status

fun rt_call :: "read_call \<Rightarrow> ReadTransfer \<Rightarrow> Manager \<Rightarrow> exn option \<times> ReadTransfer \<times> Manager" where
  "rt_call Begin t m = rt_begin send_read_chunk t m"
| "rt_call (Handle chunk) t m = rt_handle_chunk send_read_chunk end_read_transfer chunk t m"
| "rt_call (Wake k) t m = run (on_timeout send_read_chunk end_read_transfer) k t m"
| "rt_call (Terminate st) t m = finish end_read_transfer st t m"

fun rt_calls :: "read_call list \<Rightarrow> ReadTransfer \<Rightarrow> Manager \<Rightarrow> ReadTransfer \<times> Manager" where
  "rt_calls [] t m = (t, m)"
| "rt_calls (c # cs) t m = (case rt_call c t m of (x, t1, m1) \<Rightarrow> rt_calls cs t1 m1)"

text \<open>
  A read transfer that has sent its parameters \<open>n + 1\<close> times without an answer:
  \<open>n\<close> timeouts are counted and task \<open>n\<close> of the timer sleeps.
\<close>

definition retried :: "nat \<Rightarrow> ReadTransfer \<Rightarrow> ReadTransfer" where
  "retried n t = t\<lparr>chunk_timeout_count := int n,
     response_timer := \<lparr>task = (if n = 0 then Some 0 else None), sleeping = [n], created = Suc n\<rparr>\<rparr>"

text \<open>
  The chunks of a read transfer's calls whose data \<^verbatim>\<open>handle_chunk\<close> appends: those whose
  offset is the number of bytes appended before them, starting from \<open>off\<close>.
\<close>

fun accepted :: "nat \<Rightarrow> read_call list \<Rightarrow> Chunk list" where
  "accepted off [] = []"
| "accepted off (Handle chunk # cs) =
    (if offset chunk = off then chunk # accepted (off + length (data chunk)) cs
     else accepted off cs)"
| "accepted off (c # cs) = accepted off cs"

text \<open>
  A write transfer whose parameters chunks are handled one at a time: no other call
  reaches the transfer from the moment \<^verbatim>\<open>handle_chunk\<close> is called to the moment it returns.
  When the loop sleeps, the next thing to happen to the transfer is that the loop wakes.
  \<open>resume_until_return\<close> wakes the loop until no task is asleep or an exception is raised;
  it has no result when that never happens.
\<close>

partial_function (option) resume_until_return :: "'e send_chunk \<Rightarrow> WriteTransfer \<Rightarrow> 'e \<Rightarrow>
    (exn option \<times> WriteTransfer \<times> 'e) option" where
  "resume_until_return send_chunk t e =
    (if asleep t = 0 then Some (None, t, e)
     else case resume_handle_chunk send_chunk t e of
            None \<Rightarrow> None
          | Some (Some x, t1, e1) \<Rightarrow> Some (Some x, t1, e1)
          | Some (None, t1, e1) \<Rightarrow> resume_until_return send_chunk t1 e1)"

declare resume_until_return.simps [code]

text \<open>The loop of \<^verbatim>\<open>handle_chunk\<close>, from its head to the return of \<^verbatim>\<open>handle_chunk\<close>, with
  nothing else happening to the transfer.\<close>

definition alone :: "'e send_chunk \<Rightarrow> WriteTransfer \<Rightarrow> 'e \<Rightarrow>
    (exn option \<times> WriteTransfer \<times> 'e) option" where
  "alone send_chunk t e =
    (case send_loop send_chunk t e of
       None \<Rightarrow> None
     | Some (Some x, t1, e1) \<Rightarrow> Some (Some x, t1, e1)
     | Some (None, t1, e1) \<Rightarrow> resume_until_return send_chunk t1 e1)"

text \<open>\<^verbatim>\<open>handle_chunk\<close>, from its call to its return, with nothing else happening to the
  transfer.\<close>

definition handle_alone :: "'e send_chunk \<Rightarrow> (WriteTransfer, 'e) end_transfer \<Rightarrow> Chunk \<Rightarrow>
    WriteTransfer \<Rightarrow> 'e \<Rightarrow> (exn option \<times> WriteTransfer \<times> 'e) option" where
  "handle_alone send_chunk end_transfer chunk t e =
    (case wt_handle_chunk send_chunk end_transfer chunk t e of
       None \<Rightarrow> None
     | Some (Some x, t1, e1) \<Rightarrow> Some (Some x, t1, e1)
     | Some (None, t1, e1) \<Rightarrow> resume_until_return send_chunk t1 e1)"

text \<open>
  The parameters chunks of a list, each handled to its return before the next one
  arrives, by a write transfer of the Manager. \<^verbatim>\<open>Manager._handle_chunk\<close> runs in a task
  of its own and the exception of one task does not reach the next.
\<close>

fun serve :: "Chunk list \<Rightarrow> WriteTransfer \<Rightarrow> Manager \<Rightarrow> (WriteTransfer \<times> Manager) option" where
  "serve [] t m = Some (t, m)"
| "serve (chunk # chunks) t m =
    (case handle_alone send_write_chunk end_write_transfer chunk t m of
       None \<Rightarrow> None
     | Some (x, t1, m1) \<Rightarrow> serve chunks t1 m1)"

text \<open>
  The state of a write transfer at the head of the loop of \<^verbatim>\<open>handle_chunk\<close>, for a chunk
  whose offset is not beyond the payload (lemma \<open>wt_handle_chunk_in_range\<close> below).
\<close>

definition loop_entry :: "Chunk \<Rightarrow> WriteTransfer \<Rightarrow> WriteTransfer" where
  "loop_entry chunk t =
    (let t1 = t\<lparr>response_timer := stop (response_timer t)\<rparr>;
         t2 = t1\<lparr>w_offset := offset chunk\<rparr>;
         t3 = t2\<lparr>max_bytes_to_send :=
                  min (int (field_value (pending_bytes chunk)))
                      (int (length (tr_data t2)) - int (w_offset t2))\<rparr>;
         t4 = (case max_chunk_size_bytes chunk of
                 None \<Rightarrow> t3 | Some n \<Rightarrow> t3\<lparr>w_max_chunk_size := n\<rparr>)
     in case min_delay_microseconds chunk of
          None \<Rightarrow> t4 | Some n \<Rightarrow> t4\<lparr>w_chunk_delay_us := Some n\<rparr>)"

text \<open>
  The number of bytes that the loop sends for a credit \<^verbatim>\<open>_max_bytes_to_send = credit\<close>
  when \<open>rest\<close> bytes of the payload remain and the chunk size is \<open>n > 0\<close>: the loop sends
  chunks of \<open>n\<close> bytes while the credit is positive, so it can exceed the credit by less
  than a chunk, and it stops at the end of the payload.
\<close>

definition window :: "nat \<Rightarrow> nat \<Rightarrow> nat \<Rightarrow> nat" where
  "window rest credit n =
    (if credit = 0 then 0 else min rest (((credit - 1) div n + 1) * n))"

text \<open>
  What a server asks for, read from its parameters chunks alone. \<open>requested len off n cs\<close>
  is the offset that a payload of \<open>len\<close> bytes has reached after the chunks \<open>cs\<close>, when
  each chunk carries the offset reached before it (\<open>off\<close> at first) and the chunk size in
  force, the one of the chunk if it has one and else that of the chunk before (\<open>n\<close> at
  first), is positive; it is \<open>None\<close> when a chunk carries another offset or a chunk size
  of 0 is in force.
\<close>

fun requested :: "nat \<Rightarrow> nat \<Rightarrow> nat \<Rightarrow> Chunk list \<Rightarrow> nat option" where
  "requested len off n [] = Some off"
| "requested len off n (c # cs) =
    (let n' = (case max_chunk_size_bytes c of None \<Rightarrow> n | Some k \<Rightarrow> k)
     in if offset c = off \<and> 0 < n'
        then requested len
               (off + window (len - off) (min (field_value (pending_bytes c)) (len - off)) n')
               n' cs
        else None)"

text \<open>
  \<open>consecutive d off cs off'\<close>: the chunks \<open>cs\<close> carry the bytes of \<open>d\<close> from \<open>off\<close> to
  \<open>off'\<close>, each chunk starting where the one before it ends, none empty, without status,
  and with \<^verbatim>\<open>remaining_bytes = 0\<close> exactly on a chunk that ends at the end of \<open>d\<close>.
\<close>

fun consecutive :: "bytes \<Rightarrow> nat \<Rightarrow> Chunk list \<Rightarrow> nat \<Rightarrow> bool" where
  "consecutive d off [] off' = (off' = off)"
| "consecutive d off (c # cs) off' =
    (offset c = off \<and> data c \<noteq> [] \<and> data c = take (length (data c)) (drop off d) \<and>
     off + length (data c) \<le> length d \<and>
     (remaining_bytes c = Some 0) = (off + length (data c) = length d) \<and>
     status c = None \<and>
     consecutive d (off + length (data c)) cs off')"

section \<open>Properties\<close>

subsection \<open>Sending on an open stream\<close>

lemma send_transfer_parameters_open:
  "read_stream m \<noteq> None \<Longrightarrow>
   send_transfer_parameters send_read_chunk t m =
     (None,
      t\<lparr>r_pending_bytes := int (max_bytes_to_receive t),
        response_timer := start (response_timer t)\<rparr>,
      m\<lparr>read_sent := read_sent m @ [parameters_chunk t]\<rparr>)"
  by (simp add: send_transfer_parameters_def send_read_chunk_def parameters_chunk_def
      new_Chunk_def Let_def)

lemma read_opens_stream: "read_stream (snd (read i new_Manager)) \<noteq> None"
  by (simp add: read_def new_Manager_def start_read_transfer_def open_read_stream_def Let_def)

subsection \<open>A bad offset in a write transfer\<close>

text \<open>
  C5. A write transfer whose write stream is open and that is registered handles a
  chunk whose offset is greater than the length of the payload: \<^verbatim>\<open>handle_chunk\<close> returns
  without exception, the only chunk sent is the terminating chunk with the transfer's id
  and the status OUT_OF_RANGE (so no data chunk), and the transfer is finished with
  OUT_OF_RANGE: its status is OUT_OF_RANGE, its event is set and its id has left the
  registry.
\<close>

theorem write_offset_past_end:
  assumes "offset chunk > length (tr_data t)"
    and "write_stream m \<noteq> None"
    and "map_of (write_transfers m) (tr_id t) \<noteq> None"
  shows "case wt_handle_chunk send_write_chunk end_write_transfer chunk t m of
      None \<Rightarrow> False
    | Some (x, t', m') \<Rightarrow>
        x = None \<and>
        write_sent m' = write_sent m @ [(new_Chunk (tr_id t))\<lparr>status := Some OUT_OF_RANGE\<rparr>] \<and>
        tr_status t' = OUT_OF_RANGE \<and> tr_done t' \<and>
        sleeping (response_timer t') = sleeping (stop (response_timer t)) \<and>
        map_of (write_transfers m') (tr_id t) = None"
  using assms
  by (auto simp: wt_handle_chunk_def Let_def send_error_def send_write_chunk_def finish_def
      end_write_transfer_def AList.delete_conv stop_def split: option.splits)

theorem write_offset_past_end_witness:
  "offset ((new_Chunk 2)\<lparr>offset := 99, pending_bytes := Some 1, max_chunk_size_bytes := Some 1\<rparr>)
     > length (tr_data (new_WriteTransfer 2 ''hello'')) \<and>
   write_stream (snd (write 2 ''hello'' new_Manager)) \<noteq> None \<and>
   map_of (write_transfers (snd (write 2 ''hello'' new_Manager)))
     (tr_id (new_WriteTransfer 2 ''hello'')) \<noteq> None \<and>
   (case wt_handle_chunk send_write_chunk end_write_transfer
       ((new_Chunk 2)\<lparr>offset := 99, pending_bytes := Some 1, max_chunk_size_bytes := Some 1\<rparr>)
       (new_WriteTransfer 2 ''hello'') (snd (write 2 ''hello'' new_Manager)) of
      None \<Rightarrow> False
    | Some (x, t', m') \<Rightarrow>
        x = None \<and>
        write_sent m' = write_sent (snd (write 2 ''hello'' new_Manager)) @
          [(new_Chunk (tr_id (new_WriteTransfer 2 ''hello'')))\<lparr>status := Some OUT_OF_RANGE\<rparr>] \<and>
        tr_status t' = OUT_OF_RANGE \<and> tr_done t' \<and>
        sleeping (response_timer t') =
          sleeping (stop (response_timer (new_WriteTransfer 2 ''hello''))) \<and>
        map_of (write_transfers m') (tr_id (new_WriteTransfer 2 ''hello'')) = None)"
proof -
  let ?c = "(new_Chunk 2)\<lparr>offset := 99, pending_bytes := Some 1, max_chunk_size_bytes := Some 1\<rparr>"
  let ?t = "new_WriteTransfer 2 ''hello''"
  let ?m = "snd (write 2 ''hello'' new_Manager)"
  have h1: "offset ?c > length (tr_data ?t)"
    by (simp add: new_WriteTransfer_def)
  have h2: "write_stream ?m \<noteq> None"
    by (simp add: write_def new_Manager_def start_write_transfer_def open_write_stream_def
        Let_def)
  have h3: "map_of (write_transfers ?m) (tr_id ?t) \<noteq> None"
    by (simp add: write_def new_Manager_def start_write_transfer_def open_write_stream_def
        Let_def new_WriteTransfer_def)
  from h1 h2 h3 write_offset_past_end [OF h1 h2 h3] show ?thesis
    by blast
qed

subsection \<open>A chunk at an unexpected offset in a read transfer\<close>

text \<open>
  C6. A read transfer whose read stream is open handles a chunk whose offset is not the
  expected one: \<^verbatim>\<open>handle_chunk\<close> returns without exception, the data and the offset of
  the transfer are unchanged, the transfer is not finished (status, event and registry
  are as before), and exactly one chunk is sent: the parameters chunk of the transfer,
  whose offset field is the unchanged offset.
\<close>

theorem gap_chunk_requests_retransmission:
  assumes "offset chunk \<noteq> r_offset t"
    and "read_stream m \<noteq> None"
  shows "case rt_handle_chunk send_read_chunk end_read_transfer chunk t m of
    (x, t', m') \<Rightarrow>
      x = None \<and> tr_data t' = tr_data t \<and> r_offset t' = r_offset t \<and>
      tr_done t' = tr_done t \<and> tr_status t' = tr_status t \<and>
      read_transfers m' = read_transfers m \<and>
      read_sent m' = read_sent m @ [parameters_chunk t] \<and>
      offset (parameters_chunk t) = r_offset t"
  using assms
  by (simp add: rt_handle_chunk_def Let_def send_transfer_parameters_open parameters_chunk_def)

theorem gap_chunk_requests_retransmission_witness:
  "offset ((new_Chunk 3)\<lparr>offset := 5, data := ''xy''\<rparr>)
     \<noteq> r_offset ((new_ReadTransfer 3 3 8192 1024 None)\<lparr>tr_data := ''ab'', r_offset := 2\<rparr>) \<and>
   read_stream (snd (read 3 new_Manager)) \<noteq> None \<and>
   (case rt_handle_chunk send_read_chunk end_read_transfer
       ((new_Chunk 3)\<lparr>offset := 5, data := ''xy''\<rparr>)
       ((new_ReadTransfer 3 3 8192 1024 None)\<lparr>tr_data := ''ab'', r_offset := 2\<rparr>)
       (snd (read 3 new_Manager)) of
    (x, t', m') \<Rightarrow>
      x = None \<and> tr_data t' = ''ab'' \<and> r_offset t' = 2 \<and> \<not> tr_done t' \<and> tr_status t' = OK \<and>
      read_sent m' = [\<lparr>transfer_id = 3, pending_bytes = Some 8192,
        max_chunk_size_bytes = Some 1024, min_delay_microseconds = None, offset = 2,
        data = [], remaining_bytes = None, status = None\<rparr>])"
proof -
  let ?c = "(new_Chunk 3)\<lparr>offset := 5, data := ''xy''\<rparr>"
  let ?t = "(new_ReadTransfer 3 3 8192 1024 None)\<lparr>tr_data := ''ab'', r_offset := 2\<rparr>"
  let ?m = "snd (read 3 new_Manager)"
  have h1: "offset ?c \<noteq> r_offset ?t"
    by (simp add: new_ReadTransfer_def)
  have h2: "read_stream ?m \<noteq> None"
    by (rule read_opens_stream)
  have sent: "read_sent ?m = []"
    by (simp add: read_def new_Manager_def start_read_transfer_def open_read_stream_def Let_def)
  have fields: "tr_data ?t = ''ab''" "r_offset ?t = 2" "\<not> tr_done ?t" "tr_status ?t = OK"
    "parameters_chunk ?t = \<lparr>transfer_id = 3, pending_bytes = Some 8192,
        max_chunk_size_bytes = Some 1024, min_delay_microseconds = None, offset = 2,
        data = [], remaining_bytes = None, status = None\<rparr>"
    by (simp_all add: new_ReadTransfer_def parameters_chunk_def truthy_def)
  from gap_chunk_requests_retransmission [OF h1 h2] h1 h2 sent fields show ?thesis
    by (auto split: prod.splits)
qed

subsection \<open>Sending the parameters twice\<close>

text \<open>
  C9. Two calls of \<^verbatim>\<open>_send_transfer_parameters\<close> in succession on a read transfer whose
  read stream is open both return without exception and send the same chunk twice: the
  parameters chunk of the transfer.
\<close>

theorem parameters_resend_identical:
  assumes "read_stream m \<noteq> None"
  shows "case send_transfer_parameters send_read_chunk t m of
    (x1, t1, m1) \<Rightarrow>
      (case send_transfer_parameters send_read_chunk t1 m1 of
         (x2, t2, m2) \<Rightarrow>
           x1 = None \<and> x2 = None \<and>
           read_sent m1 = read_sent m @ [parameters_chunk t] \<and>
           read_sent m2 = read_sent m @ [parameters_chunk t, parameters_chunk t])"
  using assms by (simp add: send_transfer_parameters_open parameters_chunk_def)

theorem parameters_resend_identical_witness:
  "read_stream (snd (read 3 new_Manager)) \<noteq> None \<and>
   (case send_transfer_parameters send_read_chunk (new_ReadTransfer 3 3 8192 1024 (Some 7))
       (snd (read 3 new_Manager)) of
    (x1, t1, m1) \<Rightarrow>
      (case send_transfer_parameters send_read_chunk t1 m1 of
         (x2, t2, m2) \<Rightarrow>
           x1 = None \<and> x2 = None \<and>
           read_sent m1 = read_sent (snd (read 3 new_Manager)) @
             [parameters_chunk (new_ReadTransfer 3 3 8192 1024 (Some 7))] \<and>
           read_sent m2 = read_sent (snd (read 3 new_Manager)) @
             [parameters_chunk (new_ReadTransfer 3 3 8192 1024 (Some 7)),
              parameters_chunk (new_ReadTransfer 3 3 8192 1024 (Some 7))]))"
  using parameters_resend_identical [OF read_opens_stream, of 3 "new_ReadTransfer 3 3 8192 1024 (Some 7)"]
    read_opens_stream [of 3]
  by blast

subsection \<open>A second call with an id in flight\<close>

text \<open>
  C7. When the id is a key of the read registry, \<^verbatim>\<open>read\<close> raises ValueError and leaves
  the Manager as it was: no transfer object is created, nothing is put on the queue of
  new transfers, and no registered transfer object is changed. The same holds for
  \<^verbatim>\<open>write\<close> and the write registry.
\<close>

theorem duplicate_id_rejected:
  "(map_of (read_transfers m) i \<noteq> None \<longrightarrow> read i m = (Some ValueError, m)) \<and>
   (map_of (write_transfers m) i \<noteq> None \<longrightarrow> write i d m = (Some ValueError, m))"
  by (simp add: read_def write_def)

theorem duplicate_id_rejected_witness:
  "map_of (read_transfers (snd (write 3 ''hello'' (snd (read 3 new_Manager))))) 3 \<noteq> None \<and>
   read 3 (snd (write 3 ''hello'' (snd (read 3 new_Manager)))) =
     (Some ValueError, snd (write 3 ''hello'' (snd (read 3 new_Manager)))) \<and>
   map_of (write_transfers (snd (write 3 ''hello'' (snd (read 3 new_Manager))))) 3 \<noteq> None \<and>
   write 3 ''abc'' (snd (write 3 ''hello'' (snd (read 3 new_Manager)))) =
     (Some ValueError, snd (write 3 ''hello'' (snd (read 3 new_Manager))))"
proof -
  let ?m = "snd (write 3 ''hello'' (snd (read 3 new_Manager)))"
  have h1: "map_of (read_transfers ?m) 3 \<noteq> None"
    by (simp add: read_def write_def new_Manager_def start_read_transfer_def
        start_write_transfer_def open_read_stream_def open_write_stream_def Let_def)
  have h2: "map_of (write_transfers ?m) 3 \<noteq> None"
    by (simp add: read_def write_def new_Manager_def start_read_transfer_def
        start_write_transfer_def open_read_stream_def open_write_stream_def Let_def)
  from duplicate_id_rejected [of ?m 3 "''abc''"] h1 h2 show ?thesis
    by blast
qed

subsection \<open>A read transfer without answer\<close>

lemma rt_calls_append:
  "rt_calls (xs @ ys) t m = (case rt_calls xs t m of (t1, m1) \<Rightarrow> rt_calls ys t1 m1)"
  by (induction xs arbitrary: t m) (auto split: prod.splits)

lemma begin_fresh:
  "read_stream m \<noteq> None \<Longrightarrow>
   rt_call Begin (new_ReadTransfer i r mb mc d) m =
     (None, retried 0 (new_ReadTransfer i r mb mc d),
      m\<lparr>read_sent := read_sent m @ [parameters_chunk (new_ReadTransfer i r mb mc d)]\<rparr>)"
  by (simp add: rt_begin_def send_transfer_parameters_open retried_def new_ReadTransfer_def
      start_def stop_def new_Timer_def)

lemma wake_retry:
  assumes "read_stream m \<noteq> None" and "int n < r"
  shows "rt_call (Wake n) (retried n (new_ReadTransfer i r mb mc d)) m =
     (None, retried (Suc n) (new_ReadTransfer i r mb mc d),
      m\<lparr>read_sent := read_sent m @ [parameters_chunk (new_ReadTransfer i r mb mc d)]\<rparr>)"
  using assms
  by (simp add: run_def on_timeout_def send_transfer_parameters_open retried_def
      new_ReadTransfer_def start_def stop_def Let_def parameters_chunk_def)

lemma wake_last:
  assumes "int n = r"
  shows "case rt_call (Wake n) (retried n (new_ReadTransfer i r mb mc d)) m of
     (x, t', m') \<Rightarrow> tr_done t' \<and> tr_status t' = DEADLINE_EXCEEDED \<and>
       sleeping (response_timer t') = [] \<and> read_sent m' = read_sent m \<and>
       map_of (read_transfers m') i = None"
  using assms
  by (auto simp: run_def on_timeout_def finish_def retried_def end_read_transfer_def
      new_ReadTransfer_def stop_def Let_def AList.delete_conv split: prod.splits option.splits)

lemma wakes_retry:
  assumes "read_stream m \<noteq> None"
  shows "int n \<le> r \<Longrightarrow>
    rt_calls (map Wake [0..<n]) (retried 0 (new_ReadTransfer i r mb mc d)) m =
     (retried n (new_ReadTransfer i r mb mc d),
      m\<lparr>read_sent := read_sent m @ replicate n (parameters_chunk (new_ReadTransfer i r mb mc d))\<rparr>)"
proof (induction n)
  case 0
  then show ?case by simp
next
  case (Suc n)
  then have less: "int n < r" by simp
  let ?m1 = "m\<lparr>read_sent := read_sent m @ replicate n (parameters_chunk (new_ReadTransfer i r mb mc d))\<rparr>"
  have "read_stream ?m1 \<noteq> None" using assms by simp
  from wake_retry [OF this less]
  have "rt_call (Wake n) (retried n (new_ReadTransfer i r mb mc d)) ?m1 =
     (None, retried (Suc n) (new_ReadTransfer i r mb mc d),
      ?m1\<lparr>read_sent := read_sent ?m1 @ [parameters_chunk (new_ReadTransfer i r mb mc d)]\<rparr>)" .
  with Suc less show ?case
    by (simp add: rt_calls_append replicate_append_same del: rt_call.simps)
qed

text \<open>
  C3. A read transfer constructed with \<open>max_retries = r \<ge> 0\<close> begins on an open read
  stream and then gets nothing but the wake-ups of its timer. After \<^verbatim>\<open>begin\<close> and \<open>n \<le> r\<close>
  wake-ups it has sent \<open>n + 1\<close> parameters chunks, all equal, is not finished, and one
  timer task sleeps. After wake-up \<open>r + 1\<close> it has sent \<open>r + 1\<close> parameters chunks, it is
  finished with DEADLINE_EXCEEDED, its id is not in the registry and no timer task is left,
  so nothing more is sent.
\<close>

theorem read_retry_bound:
  assumes "0 \<le> r" and "read_stream m \<noteq> None"
  shows "(\<forall>n \<le> nat r.
      case rt_calls (Begin # map Wake [0..<n]) (new_ReadTransfer i r mb mc d) m of
        (t', m') \<Rightarrow>
          read_sent m' = read_sent m @
            replicate (Suc n) (parameters_chunk (new_ReadTransfer i r mb mc d)) \<and>
          \<not> tr_done t' \<and> tr_status t' = OK \<and> sleeping (response_timer t') = [n]) \<and>
    (case rt_calls (Begin # map Wake [0..<Suc (nat r)]) (new_ReadTransfer i r mb mc d) m of
       (t', m') \<Rightarrow>
         read_sent m' = read_sent m @
           replicate (Suc (nat r)) (parameters_chunk (new_ReadTransfer i r mb mc d)) \<and>
         tr_done t' \<and> tr_status t' = DEADLINE_EXCEEDED \<and>
         sleeping (response_timer t') = [] \<and> map_of (read_transfers m') i = None)"
proof -
  let ?t = "new_ReadTransfer i r mb mc d"
  let ?c = "parameters_chunk ?t"
  let ?m0 = "m\<lparr>read_sent := read_sent m @ [?c]\<rparr>"
  have open0: "read_stream ?m0 \<noteq> None" using assms(2) by simp
  have upto: "rt_calls (Begin # map Wake [0..<n]) ?t m =
      (retried n ?t, m\<lparr>read_sent := read_sent m @ replicate (Suc n) ?c\<rparr>)"
    if "n \<le> nat r" for n
  proof -
    from that assms(1) have "int n \<le> r" by simp
    from wakes_retry [OF open0 this] begin_fresh [OF assms(2)] show ?thesis
      by (simp del: rt_call.simps)
  qed
  have first: "\<forall>n \<le> nat r.
      case rt_calls (Begin # map Wake [0..<n]) ?t m of
        (t', m') \<Rightarrow>
          read_sent m' = read_sent m @ replicate (Suc n) ?c \<and>
          \<not> tr_done t' \<and> tr_status t' = OK \<and> sleeping (response_timer t') = [n]"
  proof (intro allI impI)
    fix n assume "n \<le> nat r"
    show "case rt_calls (Begin # map Wake [0..<n]) ?t m of
        (t', m') \<Rightarrow>
          read_sent m' = read_sent m @ replicate (Suc n) ?c \<and>
          \<not> tr_done t' \<and> tr_status t' = OK \<and> sleeping (response_timer t') = [n]"
      unfolding upto [OF \<open>n \<le> nat r\<close>]
      by (simp add: retried_def new_ReadTransfer_def)
  qed
  have "int (nat r) = r" using assms(1) by simp
  from wake_last [OF this, where i = i and mb = mb and mc = mc and d = d
      and m = "m\<lparr>read_sent := read_sent m @ replicate (Suc (nat r)) ?c\<rparr>"]
  have "case rt_calls ((Begin # map Wake [0..<nat r]) @ [Wake (nat r)]) ?t m of
       (t', m') \<Rightarrow>
         read_sent m' = read_sent m @ replicate (Suc (nat r)) ?c \<and>
         tr_done t' \<and> tr_status t' = DEADLINE_EXCEEDED \<and>
         sleeping (response_timer t') = [] \<and> map_of (read_transfers m') i = None"
    unfolding rt_calls_append upto [OF order_refl]
    by (simp del: rt_call.simps split: prod.splits)
  then have last: "case rt_calls (Begin # map Wake [0..<Suc (nat r)]) ?t m of
       (t', m') \<Rightarrow>
         read_sent m' = read_sent m @ replicate (Suc (nat r)) ?c \<and>
         tr_done t' \<and> tr_status t' = DEADLINE_EXCEEDED \<and>
         sleeping (response_timer t') = [] \<and> map_of (read_transfers m') i = None"
    by simp
  from first last show ?thesis by blast
qed


theorem read_retry_bound_witness:
  "(0::int) \<le> 2 \<and> read_stream (snd (read 7 new_Manager)) \<noteq> None \<and>
   (case rt_calls [Begin, Wake 0] (new_ReadTransfer 7 2 8192 1024 None) (snd (read 7 new_Manager)) of
      (t', m') \<Rightarrow> length (read_sent m') = 2 \<and> \<not> tr_done t') \<and>
   (case rt_calls [Begin, Wake 0, Wake 1, Wake 2] (new_ReadTransfer 7 2 8192 1024 None)
       (snd (read 7 new_Manager)) of
      (t', m') \<Rightarrow>
        read_sent m' = replicate 3 (parameters_chunk (new_ReadTransfer 7 2 8192 1024 None)) \<and>
        tr_done t' \<and> tr_status t' = DEADLINE_EXCEEDED \<and> sleeping (response_timer t') = [])"
proof -
  let ?m = "snd (read 7 new_Manager)"
  let ?t = "new_ReadTransfer 7 2 8192 1024 None"
  have h1: "(0::int) \<le> 2" by simp
  have h2: "read_stream ?m \<noteq> None" by (rule read_opens_stream)
  have sent: "read_sent ?m = []"
    by (simp add: read_def new_Manager_def start_read_transfer_def open_read_stream_def Let_def)
  have l1: "Begin # map Wake [0..<1] = [Begin, Wake 0]" by simp
  have l3: "Begin # map Wake [0..<Suc (nat 2)] = [Begin, Wake 0, Wake 1, Wake 2]"
    by (simp add: upt_rec)
  have n1: "(1::nat) \<le> nat 2" by simp
  note both = read_retry_bound [OF h1 h2, where i = 7 and mb = 8192 and mc = 1024 and d = None]
  obtain t1 m1 where r1: "rt_calls [Begin, Wake 0] ?t ?m = (t1, m1)"
    by (metis surj_pair)
  obtain t3 m3 where r3: "rt_calls [Begin, Wake 0, Wake 1, Wake 2] ?t ?m = (t3, m3)"
    by (metis surj_pair)
  from both [THEN conjunct1, rule_format, OF n1]
  have a: "length (read_sent m1) = 2 \<and> \<not> tr_done t1"
    unfolding l1 r1 sent by simp
  from both [THEN conjunct2]
  have b: "read_sent m3 = replicate 3 (parameters_chunk ?t) \<and>
        tr_done t3 \<and> tr_status t3 = DEADLINE_EXCEEDED \<and> sleeping (response_timer t3) = []"
    unfolding l3 r3 sent by (simp add: numeral_3_eq_3)
  from h1 h2 a b show ?thesis
    unfolding r1 r3 by simp
qed

subsection \<open>Evaluation on given inputs\<close>

lemmas model_defs = read_def write_def new_Manager_def start_read_transfer_def
  start_write_transfer_def open_read_stream_def open_write_stream_def
  new_ReadTransfer_def new_WriteTransfer_def new_Timer_def new_Chunk_def
  on_read_error_def on_write_error_def on_read_object_def on_write_object_def
  finish_def end_read_transfer_def end_write_transfer_def send_read_chunk_def
  send_write_chunk_def stop_def start_def run_def on_timeout_def wt_on_timeout_def
  send_transfer_parameters_def rt_begin_def wt_begin_def rt_handle_chunk_def
  handle_read_chunk_def handle_write_chunk_def begin_new_transfer_def
  read_timer_wakes_def write_timer_wakes_def read_return_def write_return_def
  truthy_def field_value_def ok_def send_error_def wt_handle_chunk_def next_chunk_def
  resume_handle_chunk_def write_loop_wakes_def AList.delete_eq Let_def

subsection \<open>A stream error with several transfers in flight\<close>

text \<open>
  C4. Two read transfers, with the ids 1 and 2, are registered when the read stream
  reports the error INTERNAL. \<^verbatim>\<open>_on_read_error\<close> clears the stream handle and finishes
  the transfer with id 1 with INTERNAL; \<^verbatim>\<open>finish\<close> deletes the id from the registry
  while the loop iterates over it, so the next step of the iteration raises RuntimeError.
  The transfer with id 2 stays in the registry, its event is unset and its caller stays
  blocked. \<^verbatim>\<open>_on_write_error\<close> does the same with two write transfers.
\<close>

theorem stream_error_finishes_first_transfer_only:
  "(case on_read_error INTERNAL (snd (read 2 (snd (read 1 new_Manager)))) of
      (x, m) \<Rightarrow>
        x = Some RuntimeError \<and> read_stream m = None \<and> read_transfers m = [(2, 1)] \<and>
        map_option tr_done (read_objects m 0) = Some True \<and>
        map_option tr_status (read_objects m 0) = Some INTERNAL \<and>
        map_option tr_done (read_objects m 1) = Some False \<and>
        read_return 1 m = None) \<and>
   (case on_write_error INTERNAL (snd (write 2 ''b'' (snd (write 1 ''a'' new_Manager)))) of
      (x, m) \<Rightarrow>
        x = Some RuntimeError \<and> write_stream m = None \<and> write_transfers m = [(2, 1)] \<and>
        map_option tr_done (write_objects m 0) = Some True \<and>
        map_option tr_status (write_objects m 0) = Some INTERNAL \<and>
        map_option tr_done (write_objects m 1) = Some False \<and>
        write_return 1 m = None)"
  by (simp add: model_defs)

subsection \<open>The timer after a retry\<close>

text \<open>
  C8. A caller reads transfer 3, the transfer begins, its timer fires once (the
  parameters are sent again and the timer is started again from inside its own
  callback, after which \<^verbatim>\<open>_run\<close> sets \<^verbatim>\<open>_task\<close> to \<^verbatim>\<open>None\<close>), and the server sends the whole
  payload in one final chunk. The transfer is finished with OK, its event is set and its
  id is out of the registry, but the timer task of the retry still sleeps: \<^verbatim>\<open>stop\<close> in
  \<^verbatim>\<open>finish\<close> found no task to cancel. When that task wakes the finished transfer sends
  one more parameters chunk and starts a further task; three wake-ups later \<^verbatim>\<open>finish\<close>
  runs a second time, overwrites the status OK with DEADLINE_EXCEEDED and raises KeyError.
\<close>

theorem timer_of_retry_outlives_finish:
  "map_option
     (\<lambda>m. (map_option (\<lambda>t. (tr_done t, tr_status t, task (response_timer t),
                sleeping (response_timer t))) (read_objects m 0),
           length (read_sent m), read_transfers m, read_return 0 m))
     (happen_all [Call_read 3, Begin_transfer, Read_timer 0 0,
        Read_chunk ((new_Chunk 3)\<lparr>data := ''abc'', remaining_bytes := Some 0\<rparr>)] new_Manager)
     = Some (Some (True, OK, None, [1]), 3, [], Some (Inr ''abc'')) \<and>
   map_option
     (\<lambda>m. (map_option (\<lambda>t. (tr_done t, tr_status t, task (response_timer t),
                sleeping (response_timer t))) (read_objects m 0),
           length (read_sent m), last (read_sent m)))
     (happen_all [Call_read 3, Begin_transfer, Read_timer 0 0,
        Read_chunk ((new_Chunk 3)\<lparr>data := ''abc'', remaining_bytes := Some 0\<rparr>),
        Read_timer 0 1] new_Manager)
     = Some (Some (True, OK, None, [2]), 4,
         \<lparr>transfer_id = 3, pending_bytes = Some 8192, max_chunk_size_bytes = Some 1024,
          min_delay_microseconds = None, offset = 3, data = [], remaining_bytes = None,
          status = None\<rparr>) \<and>
   map_option
     (\<lambda>(x, m). (x, map_option (\<lambda>t. (tr_done t, tr_status t, sleeping (response_timer t)))
                (read_objects m 0), length (read_sent m)))
     (case happen_all [Call_read 3, Begin_transfer, Read_timer 0 0,
        Read_chunk ((new_Chunk 3)\<lparr>data := ''abc'', remaining_bytes := Some 0\<rparr>),
        Read_timer 0 1, Read_timer 0 2, Read_timer 0 3] new_Manager of
        None \<Rightarrow> None
      | Some m \<Rightarrow> happen (Read_timer 0 4) m)
     = Some (Some KeyError, Some (True, DEADLINE_EXCEEDED, []), 6)"
  by (simp add: model_defs)

subsection \<open>The data of a read transfer\<close>

lemma send_transfer_parameters_data:
  "send_transfer_parameters send_read_chunk t m = (x, t', m') \<Longrightarrow>
   tr_data t' = tr_data t \<and> r_offset t' = r_offset t"
  by (auto simp: send_transfer_parameters_def send_read_chunk_def Let_def split: if_splits)

lemma finish_data:
  "finish end_read_transfer st t m = (x, t', m') \<Longrightarrow>
   tr_data t' = tr_data t \<and> r_offset t' = r_offset t"
  by (auto simp: finish_def end_read_transfer_def Let_def split: if_splits)

lemma on_timeout_data:
  "on_timeout send_read_chunk end_read_transfer t m = (x, t', m') \<Longrightarrow>
   tr_data t' = tr_data t \<and> r_offset t' = r_offset t"
  by (auto simp: on_timeout_def Let_def split: if_splits
      dest!: send_transfer_parameters_data finish_data)

lemma run_data:
  "run (on_timeout send_read_chunk end_read_transfer) k t m = (x, t', m') \<Longrightarrow>
   tr_data t' = tr_data t \<and> r_offset t' = r_offset t"
  by (auto simp: run_def Let_def split: if_splits prod.splits option.splits
      dest!: on_timeout_data)

lemma rt_handle_chunk_data:
  assumes "rt_handle_chunk send_read_chunk end_read_transfer chunk t m = (x, t', m')"
  shows "if offset chunk = r_offset t
    then tr_data t' = tr_data t @ data chunk \<and> r_offset t' = r_offset t + length (data chunk)
    else tr_data t' = tr_data t \<and> r_offset t' = r_offset t"
  using assms
  by (auto simp: rt_handle_chunk_def Let_def send_read_chunk_def
      split: if_splits prod.splits option.splits
      dest!: send_transfer_parameters_data finish_data)

lemma rt_calls_data:
  "case rt_calls cs t m of
     (t', m') \<Rightarrow>
       tr_data t' = tr_data t @ concat (map data (accepted (r_offset t) cs)) \<and>
       r_offset t' = r_offset t + length (concat (map data (accepted (r_offset t) cs)))"
proof (induction cs arbitrary: t m)
  case Nil
  then show ?case by simp
next
  case (Cons c cs)
  obtain x t1 m1 where c1: "rt_call c t m = (x, t1, m1)"
    by (metis surj_pair)
  obtain t' m' where r: "rt_calls cs t1 m1 = (t', m')"
    by (metis surj_pair)
  from Cons.IH [of t1 m1] r
  have ih: "tr_data t' = tr_data t1 @ concat (map data (accepted (r_offset t1) cs))"
    "r_offset t' = r_offset t1 + length (concat (map data (accepted (r_offset t1) cs)))"
    by simp_all
  have whole: "rt_calls (c # cs) t m = (t', m')"
    using c1 r by simp
  show ?case
  proof (cases c)
    case Begin
    with c1 have "tr_data t1 = tr_data t \<and> r_offset t1 = r_offset t"
      by (auto simp: rt_begin_def dest!: send_transfer_parameters_data)
    with ih Begin show ?thesis unfolding whole by simp
  next
    case (Handle chunk)
    with c1 have h: "if offset chunk = r_offset t
      then tr_data t1 = tr_data t @ data chunk \<and> r_offset t1 = r_offset t + length (data chunk)
      else tr_data t1 = tr_data t \<and> r_offset t1 = r_offset t"
      by (simp add: rt_handle_chunk_data)
    show ?thesis
    proof (cases "offset chunk = r_offset t")
      case True
      with h ih Handle show ?thesis unfolding whole by simp
    next
      case False
      with h ih Handle show ?thesis unfolding whole by simp
    qed
  next
    case (Wake k)
    with c1 have "tr_data t1 = tr_data t \<and> r_offset t1 = r_offset t"
      by (auto dest!: run_data)
    with ih Wake show ?thesis unfolding whole by simp
  next
    case (Terminate st)
    with c1 have "tr_data t1 = tr_data t \<and> r_offset t1 = r_offset t"
      by (auto dest!: finish_data)
    with ih Terminate show ?thesis unfolding whole by simp
  qed
qed

text \<open>
  C1, as stated, fails: a chunk at an unexpected offset is handled and its data is
  dropped. \<^verbatim>\<open>read(3)\<close> receives \<^verbatim>\<open>b"ab"\<close> at offset 0, \<^verbatim>\<open>b"xy"\<close> at offset 5 and a final
  empty chunk at offset 2: it returns \<^verbatim>\<open>b"ab"\<close>, and the data of the three chunks handled
  concatenate to \<^verbatim>\<open>b"abxy"\<close>.
\<close>

theorem read_gap_chunk_counterexample:
  "map_option (read_return 0)
     (happen_all [Call_read 3, Begin_transfer,
        Read_chunk ((new_Chunk 3)\<lparr>data := ''ab''\<rparr>),
        Read_chunk ((new_Chunk 3)\<lparr>offset := 5, data := ''xy''\<rparr>),
        Read_chunk ((new_Chunk 3)\<lparr>offset := 2, remaining_bytes := Some 0\<rparr>)] new_Manager)
     = Some (Some (Inr ''ab'')) \<and>
   concat (map data [(new_Chunk 3)\<lparr>data := ''ab''\<rparr>,
        (new_Chunk 3)\<lparr>offset := 5, data := ''xy''\<rparr>,
        (new_Chunk 3)\<lparr>offset := 2, remaining_bytes := Some 0\<rparr>]) = ''abxy''"
  by (simp add: model_defs)

text \<open>
  C1, amended. Whatever calls are made on a read transfer after its construction, in
  whatever state of the Manager, its data is the concatenation, in the order received,
  of the data of the chunks handled at the expected offset (\<open>accepted\<close>), and its offset
  is the length of its data. This holds in particular when the transfer is finished
  with OK.
\<close>

theorem read_data_is_accepted_chunks:
  "case rt_calls cs (new_ReadTransfer i r mb mc d) m of
     (t', m') \<Rightarrow>
       tr_data t' = concat (map data (accepted 0 cs)) \<and> r_offset t' = length (tr_data t')"
  using rt_calls_data [where cs = cs and t = "new_ReadTransfer i r mb mc d" and m = m]
  by (auto simp: new_ReadTransfer_def split: prod.splits)

theorem read_data_is_accepted_chunks_witness:
  "(case rt_calls [Begin, Handle ((new_Chunk 3)\<lparr>data := ''ab''\<rparr>),
        Handle ((new_Chunk 3)\<lparr>offset := 5, data := ''xy''\<rparr>),
        Handle ((new_Chunk 3)\<lparr>offset := 2, data := ''cd'', remaining_bytes := Some 0\<rparr>)]
      (new_ReadTransfer 3 3 8192 1024 None) (snd (read 3 new_Manager)) of
     (t', m') \<Rightarrow> tr_data t' = ''abcd'' \<and> r_offset t' = 4 \<and> tr_done t' \<and> tr_status t' = OK) \<and>
   accepted 0 [Begin, Handle ((new_Chunk 3)\<lparr>data := ''ab''\<rparr>),
        Handle ((new_Chunk 3)\<lparr>offset := 5, data := ''xy''\<rparr>),
        Handle ((new_Chunk 3)\<lparr>offset := 2, data := ''cd'', remaining_bytes := Some 0\<rparr>)]
     = [(new_Chunk 3)\<lparr>data := ''ab''\<rparr>,
        (new_Chunk 3)\<lparr>offset := 2, data := ''cd'', remaining_bytes := Some 0\<rparr>]"
proof -
  let ?cs = "[Begin, Handle ((new_Chunk 3)\<lparr>data := ''ab''\<rparr>),
        Handle ((new_Chunk 3)\<lparr>offset := 5, data := ''xy''\<rparr>),
        Handle ((new_Chunk 3)\<lparr>offset := 2, data := ''cd'', remaining_bytes := Some 0\<rparr>)]"
  let ?t = "new_ReadTransfer 3 3 8192 1024 None"
  let ?m = "snd (read 3 new_Manager)"
  have acc: "accepted 0 ?cs = [(new_Chunk 3)\<lparr>data := ''ab''\<rparr>,
        (new_Chunk 3)\<lparr>offset := 2, data := ''cd'', remaining_bytes := Some 0\<rparr>]"
    by (simp add: new_Chunk_def)
  have fin: "case rt_calls ?cs ?t ?m of (t', m') \<Rightarrow> tr_done t' \<and> tr_status t' = OK"
    by (simp add: model_defs)
  from read_data_is_accepted_chunks [where cs = ?cs and i = 3 and r = 3 and mb = 8192
      and mc = 1024 and d = None and m = ?m]
  have "case rt_calls ?cs ?t ?m of
     (t', m') \<Rightarrow> tr_data t' = ''abcd'' \<and> r_offset t' = 4"
    unfolding acc by (auto simp: new_Chunk_def split: prod.splits)
  with fin acc show ?thesis by (auto split: prod.splits)
qed

subsection \<open>The loop of a write transfer\<close>


lemma next_chunk_step:
  assumes "0 < w_max_chunk_size t" and "w_offset t < length (tr_data t)"
  shows "consecutive (tr_data t) (w_offset t) [next_chunk t]
           (w_offset t + length (data (next_chunk t)))"
    and "length (data (next_chunk t)) = min (w_max_chunk_size t) (length (tr_data t) - w_offset t)"
  using assms
  by (auto simp: next_chunk_def new_Chunk_def Let_def min_def)

lemma send_write_chunk_open:
  "write_stream m \<noteq> None \<Longrightarrow>
   send_write_chunk c m = (None, m\<lparr>write_sent := write_sent m @ [c]\<rparr>)"
  by (simp add: send_write_chunk_def)

lemma send_loop_stop:
  "\<not> 0 < max_bytes_to_send t \<Longrightarrow>
   send_loop send_chunk t e = Some (None, t\<lparr>response_timer := start (response_timer t)\<rparr>, e)"
  by (subst send_loop.simps) simp


lemma send_loop_sleeps:
  assumes "0 < max_bytes_to_send t" and "send_chunk (next_chunk t) e = (None, e1)"
    and "truthy (w_chunk_delay_us t)"
  shows "send_loop send_chunk t e =
    Some (None,
      t\<lparr>w_offset := w_offset t + length (data (next_chunk t)),
        max_bytes_to_send := max_bytes_to_send t - int (length (data (next_chunk t))),
        asleep := Suc (asleep t)\<rparr>, e1)"
  using assms by (subst send_loop.simps) (simp add: Let_def)

lemma send_loop_goes_on:
  assumes "0 < max_bytes_to_send t" and "send_chunk (next_chunk t) e = (None, e1)"
    and "\<not> truthy (w_chunk_delay_us t)"
  shows "send_loop send_chunk t e =
    send_loop send_chunk
      (t\<lparr>w_offset := w_offset t + length (data (next_chunk t)),
         max_bytes_to_send := max_bytes_to_send t - int (length (data (next_chunk t)))\<rparr>) e1"
  using assms by (subst send_loop.simps) (simp add: Let_def)

lemma alone_stop:
  assumes "\<not> 0 < max_bytes_to_send t" and "asleep t = 0"
  shows "alone send_chunk t e = Some (None, t\<lparr>response_timer := start (response_timer t)\<rparr>, e)"
  using assms
  by (simp add: alone_def send_loop_stop) (subst resume_until_return.simps, simp)


lemma alone_step:
  assumes "0 < max_bytes_to_send t" and "send_chunk (next_chunk t) e = (None, e1)"
    and "asleep t = 0"
  shows "alone send_chunk t e =
    alone send_chunk
      (t\<lparr>w_offset := w_offset t + length (data (next_chunk t)),
         max_bytes_to_send := max_bytes_to_send t - int (length (data (next_chunk t)))\<rparr>) e1"
proof (cases "truthy (w_chunk_delay_us t)")
  case False
  with assms show ?thesis by (simp add: alone_def send_loop_goes_on)
next
  case True
  let ?t2 = "t\<lparr>w_offset := w_offset t + length (data (next_chunk t)),
         max_bytes_to_send := max_bytes_to_send t - int (length (data (next_chunk t)))\<rparr>"
  let ?t3 = "?t2\<lparr>asleep := Suc (asleep t)\<rparr>"
  have same: "?t3\<lparr>asleep := asleep ?t3 - 1\<rparr> = ?t2"
    using assms(3) by (cases t) simp
  have "alone send_chunk t e = resume_until_return send_chunk ?t3 e1"
    using assms True by (simp add: alone_def send_loop_sleeps)
  also have "\<dots> = (case resume_handle_chunk send_chunk ?t3 e1 of
            None \<Rightarrow> None
          | Some (Some x, t1, e1) \<Rightarrow> Some (Some x, t1, e1)
          | Some (None, t1, e1) \<Rightarrow> resume_until_return send_chunk t1 e1)"
    by (subst resume_until_return.simps) simp
  also have "resume_handle_chunk send_chunk ?t3 e1 = send_loop send_chunk ?t2 e1"
    unfolding resume_handle_chunk_def same by simp
  finally show ?thesis by (simp add: alone_def)
qed


lemma window_step:
  assumes "0 < credit" and "credit \<le> rest" and "0 < n"
  shows "window rest credit n = min n rest + window (rest - min n rest) (credit - min n rest) n"
proof (cases "rest \<le> n")
  case True
  with assms have "(credit - 1) div n = 0" by simp
  with True assms show ?thesis by (simp add: window_def)
next
  case False
  then have less: "n < rest" by simp
  show ?thesis
  proof (cases "credit \<le> n")
    case True
    with assms have "(credit - 1) div n = 0" by simp
    with True less assms show ?thesis by (simp add: window_def)
  next
    case False
    define q where "q = (credit - n - 1) div n"
    from False have "n \<le> credit - 1" by simp
    with assms(3) have "(credit - 1) div n = Suc ((credit - 1 - n) div n)"
      by (rule le_div_geq)
    moreover have "credit - n - 1 = credit - 1 - n" by simp
    ultimately have d: "(credit - 1) div n = Suc q" by (simp add: q_def)
    from d have d': "(credit - Suc 0) div n = Suc q" by simp
    have l: "window rest credit n = min rest (q * n + n + n)"
      using assms(1) by (simp add: window_def d' add.commute)
    have r: "window (rest - n) (credit - n) n = min (rest - n) (q * n + n)"
      using False by (simp add: window_def q_def)
    have mn: "min n rest = n" using less by simp
    have "min rest (q * n + n + n) = n + min (rest - n) (q * n + n)"
      using less by linarith
    then show ?thesis by (simp only: l r mn)
  qed
qed

lemma alone_total:
  assumes "asleep t = 0" and "0 < w_max_chunk_size t"
    and "max_bytes_to_send t \<le> int (length (tr_data t)) - int (w_offset t)"
    and "w_offset t \<le> length (tr_data t)"
    and "write_stream m \<noteq> None"
  shows "\<exists>cs off' b'. alone send_write_chunk t m =
      Some (None,
            t\<lparr>w_offset := off', max_bytes_to_send := b',
              response_timer := start (response_timer t)\<rparr>,
            m\<lparr>write_sent := write_sent m @ cs\<rparr>) \<and>
      consecutive (tr_data t) (w_offset t) cs off' \<and>
      off' = w_offset t + window (length (tr_data t) - w_offset t)
               (nat (max_bytes_to_send t)) (w_max_chunk_size t)"
  using assms
proof (induction "nat (max_bytes_to_send t)" arbitrary: t m rule: less_induct)
  case less
  show ?case
  proof (cases "0 < max_bytes_to_send t")
    case False
    have "alone send_write_chunk t m =
      Some (None,
            t\<lparr>w_offset := w_offset t, max_bytes_to_send := max_bytes_to_send t,
              response_timer := start (response_timer t)\<rparr>,
            m\<lparr>write_sent := write_sent m @ []\<rparr>)"
      using False less.prems(1) by (simp add: alone_stop)
    moreover have "consecutive (tr_data t) (w_offset t) [] (w_offset t)" by simp
    moreover have "w_offset t = w_offset t + window (length (tr_data t) - w_offset t)
               (nat (max_bytes_to_send t)) (w_max_chunk_size t)"
      using False by (simp add: window_def)
    ultimately show ?thesis by blast
  next
    case True
    let ?c = "next_chunk t"
    let ?n = "length (data ?c)"
    let ?t2 = "t\<lparr>w_offset := w_offset t + ?n,
                  max_bytes_to_send := max_bytes_to_send t - int ?n\<rparr>"
    let ?m2 = "m\<lparr>write_sent := write_sent m @ [?c]\<rparr>"
    from True less.prems(3) have lt: "w_offset t < length (tr_data t)" by simp
    from next_chunk_step [OF less.prems(2) lt]
    have c: "consecutive (tr_data t) (w_offset t) [?c] (w_offset t + ?n)"
      and n: "?n = min (w_max_chunk_size t) (length (tr_data t) - w_offset t)" .
    from c have pos: "0 < ?n" and le: "w_offset t + ?n \<le> length (tr_data t)" by simp_all
    have sw: "send_write_chunk ?c m = (None, ?m2)"
      by (rule send_write_chunk_open [OF less.prems(5)])
    have step: "alone send_write_chunk t m = alone send_write_chunk ?t2 ?m2"
      by (rule alone_step [where send_chunk = send_write_chunk, OF True sw less.prems(1)])
    have "nat (max_bytes_to_send ?t2) < nat (max_bytes_to_send t)"
      using True pos by simp
    moreover have "asleep ?t2 = 0" using less.prems(1) by simp
    moreover have "0 < w_max_chunk_size ?t2" using less.prems(2) by simp
    moreover have "max_bytes_to_send ?t2 \<le> int (length (tr_data ?t2)) - int (w_offset ?t2)"
      using less.prems(3) by simp
    moreover have "w_offset ?t2 \<le> length (tr_data ?t2)" using le by simp
    moreover have "write_stream ?m2 \<noteq> None" using less.prems(5) by simp
    ultimately obtain cs off' b' where
      r: "alone send_write_chunk ?t2 ?m2 =
          Some (None,
                ?t2\<lparr>w_offset := off', max_bytes_to_send := b',
                  response_timer := start (response_timer ?t2)\<rparr>,
                ?m2\<lparr>write_sent := write_sent ?m2 @ cs\<rparr>)"
      and cs: "consecutive (tr_data ?t2) (w_offset ?t2) cs off'"
      and o: "off' = w_offset ?t2 + window (length (tr_data ?t2) - w_offset ?t2)
               (nat (max_bytes_to_send ?t2)) (w_max_chunk_size ?t2)"
      using less.hyps [of ?t2 ?m2] by blast
    have "alone send_write_chunk t m =
        Some (None,
              t\<lparr>w_offset := off', max_bytes_to_send := b',
                response_timer := start (response_timer t)\<rparr>,
              m\<lparr>write_sent := write_sent m @ (?c # cs)\<rparr>)"
      using step r by simp
    moreover have "consecutive (tr_data t) (w_offset t) (?c # cs) off'"
      using c cs by simp
    moreover have "off' = w_offset t + window (length (tr_data t) - w_offset t)
               (nat (max_bytes_to_send t)) (w_max_chunk_size t)"
    proof -
      let ?rest = "length (tr_data t) - w_offset t"
      let ?credit = "nat (max_bytes_to_send t)"
      let ?k = "w_max_chunk_size t"
      have "0 < ?credit" using True by simp
      moreover have "?credit \<le> ?rest" using less.prems(3) lt by simp
      ultimately have ws: "window ?rest ?credit ?k =
          min ?k ?rest + window (?rest - min ?k ?rest) (?credit - min ?k ?rest) ?k"
        using less.prems(2) by (rule window_step)
      have a1: "length (tr_data t) - (w_offset t + ?n) = ?rest - ?n" by simp
      have a2: "nat (max_bytes_to_send t - int ?n) = ?credit - ?n" by simp
      from o have "off' = w_offset t + ?n +
          window (length (tr_data t) - (w_offset t + ?n))
            (nat (max_bytes_to_send t - int ?n)) ?k"
        by simp
      then have "off' = w_offset t + ?n + window (?rest - ?n) (?credit - ?n) ?k"
        by (simp only: a1 a2)
      then show ?thesis by (simp only: ws n [symmetric] add.assoc)
    qed
    ultimately show ?thesis by blast
  qed
qed








lemma wt_handle_chunk_in_range:
  "offset chunk \<le> length (tr_data t) \<Longrightarrow>
   wt_handle_chunk sc et chunk t e = send_loop sc (loop_entry chunk t) e"
  by (simp add: wt_handle_chunk_def loop_entry_def Let_def split: option.splits)

lemma handle_alone_in_range:
  "offset chunk \<le> length (tr_data t) \<Longrightarrow>
   handle_alone sc et chunk t e = alone sc (loop_entry chunk t) e"
  by (simp add: handle_alone_def alone_def wt_handle_chunk_in_range)

lemma loop_entry_fields:
  "tr_data (loop_entry chunk t) = tr_data t"
  "tr_id (loop_entry chunk t) = tr_id t"
  "tr_done (loop_entry chunk t) = tr_done t"
  "tr_status (loop_entry chunk t) = tr_status t"
  "asleep (loop_entry chunk t) = asleep t"
  "w_offset (loop_entry chunk t) = offset chunk"
  "max_bytes_to_send (loop_entry chunk t) =
     min (int (field_value (pending_bytes chunk))) (int (length (tr_data t)) - int (offset chunk))"
  "w_max_chunk_size (loop_entry chunk t) =
     (case max_chunk_size_bytes chunk of None \<Rightarrow> w_max_chunk_size t | Some n \<Rightarrow> n)"
  by (simp_all add: loop_entry_def Let_def split: option.splits)

lemma consecutive_append:
  "consecutive d a xs b \<Longrightarrow> consecutive d b ys c \<Longrightarrow> consecutive d a (xs @ ys) c"
  by (induction xs arbitrary: a) auto

lemma consecutive_sum:
  "consecutive d a cs b \<Longrightarrow> a + sum_list (map (length \<circ> data) cs) = b"
proof (induction cs arbitrary: a)
  case Nil
  then show ?case by simp
next
  case (Cons c cs)
  from Cons.prems have "consecutive d (a + length (data c)) cs b" by simp
  from Cons.IH [OF this] show ?case by simp
qed

lemma consecutive_offsets:
  "consecutive d a cs b \<Longrightarrow> sorted (map offset cs) \<and> (\<forall>c \<in> set cs. a \<le> offset c)"
proof (induction cs arbitrary: a)
  case Nil
  then show ?case by simp
next
  case (Cons c cs)
  from Cons.prems have hd: "offset c = a" and tl: "consecutive d (a + length (data c)) cs b"
    by simp_all
  from Cons.IH [OF tl]
  have ih: "sorted (map offset cs)" "\<forall>c' \<in> set cs. a + length (data c) \<le> offset c'"
    by simp_all
  from ih(2) have "\<forall>c' \<in> set cs. a \<le> offset c'" by auto
  with ih(1) hd show ?case by simp
qed

lemma consecutive_concat:
  "consecutive d a cs b \<Longrightarrow> concat (map data cs) = take (b - a) (drop a d)"
proof (induction cs arbitrary: a)
  case Nil
  then show ?case by simp
next
  case (Cons c cs)
  let ?n = "length (data c)"
  from Cons.prems have tl: "consecutive d (a + ?n) cs b" and hd: "data c = take ?n (drop a d)"
    by simp_all
  from consecutive_sum [OF tl] have le: "a + ?n \<le> b" by simp
  have "concat (map data cs) = take (b - (a + ?n)) (drop (a + ?n) d)"
    by (rule Cons.IH [OF tl])
  moreover have "take (b - a) (drop a d) =
      take ?n (drop a d) @ take (b - (a + ?n)) (drop (a + ?n) d)"
  proof -
    have "b - a = ?n + (b - (a + ?n))" using le by simp
    then show ?thesis by (simp only: take_add drop_drop add.commute)
  qed
  ultimately show ?case using hd by simp
qed

lemma consecutive_marker:
  "consecutive d a cs b \<Longrightarrow>
   \<forall>c \<in> set cs. status c = None \<and> data c \<noteq> [] \<and>
     (remaining_bytes c = Some 0) = (offset c + length (data c) = length d)"
  by (induction cs arbitrary: a) auto

lemma consecutive_last:
  "consecutive d a cs b \<Longrightarrow> cs \<noteq> [] \<Longrightarrow>
   offset (last cs) + length (data (last cs)) = b"
  by (induction cs arbitrary: a) auto

lemma window_le: "window rest credit n \<le> rest"
  by (simp add: window_def)

lemma handle_alone_window:
  assumes "write_stream m \<noteq> None" and "asleep t = 0"
    and "offset chunk \<le> length (tr_data t)"
    and "0 < (case max_chunk_size_bytes chunk of None \<Rightarrow> w_max_chunk_size t | Some k \<Rightarrow> k)"
  shows "\<exists>cs t'. handle_alone send_write_chunk end_write_transfer chunk t m =
        Some (None, t', m\<lparr>write_sent := write_sent m @ cs\<rparr>) \<and>
      consecutive (tr_data t) (offset chunk) cs
        (offset chunk + window (length (tr_data t) - offset chunk)
           (min (field_value (pending_bytes chunk)) (length (tr_data t) - offset chunk))
           (case max_chunk_size_bytes chunk of None \<Rightarrow> w_max_chunk_size t | Some k \<Rightarrow> k)) \<and>
      asleep t' = 0 \<and>
      w_max_chunk_size t' =
        (case max_chunk_size_bytes chunk of None \<Rightarrow> w_max_chunk_size t | Some k \<Rightarrow> k) \<and>
      tr_data t' = tr_data t \<and> tr_id t' = tr_id t \<and> tr_done t' = tr_done t \<and>
      tr_status t' = tr_status t"
proof -
  let ?e = "loop_entry chunk t"
  have a: "asleep ?e = 0" using assms(2) by (simp add: loop_entry_fields)
  have b: "0 < w_max_chunk_size ?e" using assms(4) by (simp add: loop_entry_fields)
  have c: "max_bytes_to_send ?e \<le> int (length (tr_data ?e)) - int (w_offset ?e)"
    by (simp add: loop_entry_fields)
  have d: "w_offset ?e \<le> length (tr_data ?e)" using assms(3) by (simp add: loop_entry_fields)
  from alone_total [OF a b c d assms(1)]
  obtain cs off' b' where
    r: "alone send_write_chunk ?e m =
      Some (None,
            ?e\<lparr>w_offset := off', max_bytes_to_send := b',
              response_timer := start (response_timer ?e)\<rparr>,
            m\<lparr>write_sent := write_sent m @ cs\<rparr>)"
    and cs: "consecutive (tr_data ?e) (w_offset ?e) cs off'"
    and o: "off' = w_offset ?e + window (length (tr_data ?e) - w_offset ?e)
               (nat (max_bytes_to_send ?e)) (w_max_chunk_size ?e)"
    by blast
  have credit: "nat (max_bytes_to_send ?e) =
      min (field_value (pending_bytes chunk)) (length (tr_data t) - offset chunk)"
    using assms(3) by (simp add: loop_entry_fields)
  let ?t' = "?e\<lparr>w_offset := off', max_bytes_to_send := b',
              response_timer := start (response_timer ?e)\<rparr>"
  have "handle_alone send_write_chunk end_write_transfer chunk t m =
      Some (None, ?t', m\<lparr>write_sent := write_sent m @ cs\<rparr>)"
    using r assms(3) by (simp add: handle_alone_in_range)
  moreover have "consecutive (tr_data t) (offset chunk) cs
        (offset chunk + window (length (tr_data t) - offset chunk)
           (min (field_value (pending_bytes chunk)) (length (tr_data t) - offset chunk))
           (case max_chunk_size_bytes chunk of None \<Rightarrow> w_max_chunk_size t | Some k \<Rightarrow> k))"
    using cs o credit by (simp add: loop_entry_fields)
  moreover have "asleep ?t' = 0" "tr_data ?t' = tr_data t" "tr_id ?t' = tr_id t"
    "tr_done ?t' = tr_done t" "tr_status ?t' = tr_status t"
    "w_max_chunk_size ?t' =
        (case max_chunk_size_bytes chunk of None \<Rightarrow> w_max_chunk_size t | Some k \<Rightarrow> k)"
    using assms(2) by (simp_all add: loop_entry_fields)
  ultimately show ?thesis by blast
qed

lemma serve_in_order:
  assumes "write_stream m \<noteq> None" and "asleep t = 0" and "off \<le> length (tr_data t)"
    and "requested (length (tr_data t)) off (w_max_chunk_size t) chunks = Some off'"
  shows "\<exists>sent t'. serve chunks t m = Some (t', m\<lparr>write_sent := write_sent m @ sent\<rparr>) \<and>
      consecutive (tr_data t) off sent off' \<and> asleep t' = 0 \<and>
      tr_data t' = tr_data t \<and> tr_id t' = tr_id t \<and> tr_done t' = tr_done t \<and>
      tr_status t' = tr_status t"
  using assms
proof (induction chunks arbitrary: t m off)
  case Nil
  have "serve [] t m = Some (t, m\<lparr>write_sent := write_sent m @ []\<rparr>)" by simp
  moreover have "consecutive (tr_data t) off [] off'" using Nil.prems(4) by simp
  ultimately show ?case using Nil.prems(2) by blast
next
  case (Cons c chunks)
  let ?len = "length (tr_data t)"
  let ?k = "case max_chunk_size_bytes c of None \<Rightarrow> w_max_chunk_size t | Some k \<Rightarrow> k"
  let ?next = "off + window (?len - off) (min (field_value (pending_bytes c)) (?len - off)) ?k"
  from Cons.prems(4) have inord: "offset c = off" and k: "0 < ?k"
    and rest: "requested ?len ?next ?k chunks = Some off'"
    by (simp_all add: Let_def split: if_splits)
  from Cons.prems(3) inord have le: "offset c \<le> ?len" by simp
  from handle_alone_window [OF Cons.prems(1) Cons.prems(2) le k]
  obtain cs1 t1 where
    h: "handle_alone send_write_chunk end_write_transfer c t m =
        Some (None, t1, m\<lparr>write_sent := write_sent m @ cs1\<rparr>)"
    and c1: "consecutive (tr_data t) off cs1 ?next"
    and f1: "asleep t1 = 0" "w_max_chunk_size t1 = ?k" "tr_data t1 = tr_data t"
      "tr_id t1 = tr_id t" "tr_done t1 = tr_done t" "tr_status t1 = tr_status t"
    unfolding inord by blast
  let ?m1 = "m\<lparr>write_sent := write_sent m @ cs1\<rparr>"
  have op1: "write_stream ?m1 \<noteq> None" using Cons.prems(1) by simp
  have le1: "?next \<le> length (tr_data t1)"
    using Cons.prems(3) window_le [of "?len - off"] by (simp add: f1 le_diff_conv2 add.commute)
  have rest1: "requested (length (tr_data t1)) ?next (w_max_chunk_size t1) chunks = Some off'"
    using rest by (simp add: f1)
  from Cons.IH [OF op1 f1(1) le1 rest1]
  obtain sent t' where
    r: "serve chunks t1 ?m1 = Some (t', ?m1\<lparr>write_sent := write_sent ?m1 @ sent\<rparr>)"
    and c2: "consecutive (tr_data t1) ?next sent off'"
    and f2: "asleep t' = 0" "tr_data t' = tr_data t1" "tr_id t' = tr_id t1"
      "tr_done t' = tr_done t1" "tr_status t' = tr_status t1"
    by blast
  have "serve (c # chunks) t m = Some (t', m\<lparr>write_sent := write_sent m @ (cs1 @ sent)\<rparr>)"
    using h r by simp
  moreover have "consecutive (tr_data t) off (cs1 @ sent) off'"
    using consecutive_append [OF c1 c2 [unfolded f1(3)]] .
  ultimately show ?case using f1 f2 by (intro exI [of _ "cs1 @ sent"] exI [of _ t']) simp
qed






subsection \<open>The chunks of a write transfer\<close>

lemma finish_write_sent:
  "finish end_write_transfer st t m = (x, t', m') \<Longrightarrow>
   write_sent m' = write_sent m \<and> tr_done t' \<and> tr_status t' = st \<and> asleep t' = asleep t"
  by (auto simp: finish_def end_write_transfer_def Let_def split: if_splits)

text \<open>
  C2, as stated, fails: the server may accept a write with OK at any moment, and it may
  ask again for bytes already sent. \<^verbatim>\<open>write(7, b"hello")\<close> begins and the server answers
  with the status OK at once: \<^verbatim>\<open>write\<close> returns normally, and the only chunk sent is the
  opening one, without data. In a second run the server asks for the 5 bytes in one
  chunk, then again for 3 bytes from the offset 2, then answers OK: 8 bytes are sent.
\<close>

theorem write_accepted_early_counterexample:
  "map_option (\<lambda>m. (write_return 0 m, sum_list (map (length \<circ> data) (write_sent m))))
     (happen_all [Call_write 7 ''hello'', Begin_transfer,
        Write_chunk ((new_Chunk 7)\<lparr>status := Some OK\<rparr>)] new_Manager)
     = Some (Some (Inr ()), 0) \<and>
   (0::nat) \<noteq> length ''hello'' \<and>
   map_option (\<lambda>m. (write_return 0 m, sum_list (map (length \<circ> data) (write_sent m))))
     (happen_all [Call_write 7 ''hello'', Begin_transfer,
        Write_chunk ((new_Chunk 7)\<lparr>pending_bytes := Some 5, max_chunk_size_bytes := Some 5\<rparr>),
        Write_chunk ((new_Chunk 7)\<lparr>offset := 2, pending_bytes := Some 3\<rparr>),
        Write_chunk ((new_Chunk 7)\<lparr>status := Some OK\<rparr>)] new_Manager)
     = Some (Some (Inr ()), 8) \<and>
   (8::nat) \<noteq> length ''hello''"
  by (simp add: model_defs send_loop.simps)

text \<open>
  C2, amended. A write transfer begins on an open write stream. The server sends
  parameters chunks that each carry the offset reached so far, with a positive chunk size
  in force, and that ask for the whole payload between them
  (\<open>requested (length d) 0 0 chunks = Some (length d)\<close>, a condition on the chunks and
  the length of the payload alone); each chunk is handled to its return before the next
  one arrives (\<open>serve\<close>); then the transfer is finished with OK. Then every
  \<^verbatim>\<open>handle_chunk\<close> returns, and the transfer has sent the opening chunk and then data
  chunks without status whose offsets are non-decreasing, whose data concatenate to the
  payload and whose lengths sum to the length of the payload; \<^verbatim>\<open>remaining_bytes = 0\<close> is
  set on exactly the chunks that end at the end of the payload, among them the last chunk
  sent when the payload is not empty, and \<^verbatim>\<open>_next_chunk\<close> sets it exactly when the rest
  of the payload is at most the chunk size.
\<close>

theorem write_in_order_sends_payload:
  assumes "write_stream m \<noteq> None"
    and "requested (length d) 0 0 chunks = Some (length d)"
  shows "case wt_begin send_write_chunk (new_WriteTransfer i d) m of
    (x0, t0, m0) \<Rightarrow>
      (case serve chunks t0 m0 of
         None \<Rightarrow> False
       | Some (t1, m1) \<Rightarrow>
           (case finish end_write_transfer OK t1 m1 of
              (x, t', m') \<Rightarrow>
                x0 = None \<and> tr_done t' \<and> tr_status t' = OK \<and> asleep t' = 0 \<and>
                (\<forall>t. (remaining_bytes (next_chunk t) = Some 0) =
                   (int (length (tr_data t)) - int (w_offset t) \<le> int (w_max_chunk_size t))) \<and>
                (\<exists>sent. write_sent m' = write_sent m @ new_Chunk i # sent \<and>
                   (\<forall>c \<in> set sent. status c = None \<and>
                      (remaining_bytes c = Some 0) = (offset c + length (data c) = length d)) \<and>
                   sorted (map offset (new_Chunk i # sent)) \<and>
                   concat (map data (new_Chunk i # sent)) = d \<and>
                   sum_list (map (length \<circ> data) (new_Chunk i # sent)) = length d \<and>
                   (d \<noteq> [] \<longrightarrow> remaining_bytes (last (new_Chunk i # sent)) = Some 0))))"
proof -
  let ?T = "new_WriteTransfer i d"
  let ?Tb = "?T\<lparr>response_timer := start (response_timer ?T)\<rparr>"
  let ?Mb = "m\<lparr>write_sent := write_sent m @ [new_Chunk i]\<rparr>"
  have fresh: "tr_id ?T = i" "tr_data ?T = d" "asleep ?T = 0" "w_max_chunk_size ?T = 0"
    by (simp_all add: new_WriteTransfer_def)
  have b: "wt_begin send_write_chunk ?T m = (None, ?Tb, ?Mb)"
    using assms(1) fresh(1) by (simp add: wt_begin_def send_write_chunk_open)
  have opb: "write_stream ?Mb \<noteq> None" using assms(1) by simp
  have ab: "asleep ?Tb = 0" using fresh(3) by simp
  have leb: "0 \<le> length (tr_data ?Tb)" by simp
  have reqb: "requested (length (tr_data ?Tb)) 0 (w_max_chunk_size ?Tb) chunks = Some (length d)"
    using assms(2) fresh by simp
  from serve_in_order [OF opb ab leb reqb]
  obtain sent t1 where
    r: "serve chunks ?Tb ?Mb = Some (t1, ?Mb\<lparr>write_sent := write_sent ?Mb @ sent\<rparr>)"
    and c: "consecutive (tr_data ?Tb) 0 sent (length d)"
    and a1: "asleep t1 = 0"
    by blast
  let ?Mc = "?Mb\<lparr>write_sent := write_sent ?Mb @ sent\<rparr>"
  obtain x t' m' where f: "finish end_write_transfer OK t1 ?Mc = (x, t', m')"
    by (metis surj_pair)
  from finish_write_sent [OF f] a1
  have fin: "write_sent m' = write_sent m @ new_Chunk i # sent" "tr_done t'" "tr_status t' = OK"
    "asleep t' = 0"
    by simp_all
  from c have c0: "consecutive d 0 sent (length d)" by (simp add: fresh)
  have nc: "offset (new_Chunk i) = 0" "data (new_Chunk i) = []"
    by (simp_all add: new_Chunk_def)
  have marker: "\<forall>c \<in> set sent. status c = None \<and>
      (remaining_bytes c = Some 0) = (offset c + length (data c) = length d)"
    using consecutive_marker [OF c0] by blast
  have srt: "sorted (map offset (new_Chunk i # sent))"
    using consecutive_offsets [OF c0] by (simp add: nc)
  have cat: "concat (map data (new_Chunk i # sent)) = d"
    using consecutive_concat [OF c0] by (simp add: nc)
  have sum: "sum_list (map (length \<circ> data) (new_Chunk i # sent)) = length d"
    using consecutive_sum [OF c0] by (simp add: nc)
  have lst: "remaining_bytes (last (new_Chunk i # sent)) = Some 0" if "d \<noteq> []"
  proof -
    from that c0 have ne: "sent \<noteq> []" by (cases sent) auto
    from consecutive_last [OF c0 ne]
    have "offset (last sent) + length (data (last sent)) = length d" .
    moreover have "last sent \<in> set sent" using ne by simp
    ultimately have "remaining_bytes (last sent) = Some 0" using marker by blast
    with ne show ?thesis by simp
  qed
  have nxt: "\<forall>t. (remaining_bytes (next_chunk t) = Some 0) =
      (int (length (tr_data t)) - int (w_offset t) \<le> int (w_max_chunk_size t))"
    by (simp add: next_chunk_def new_Chunk_def Let_def)
  from fin marker srt cat sum lst nxt show ?thesis
    unfolding b prod.case r option.case f by (simp del: sorted_wrt.simps)
qed

theorem write_in_order_sends_payload_witness:
  "write_stream (snd (write 1 ''aaaaaaaaaa'' new_Manager)) \<noteq> None \<and>
   requested (length ''aaaaaaaaaa'') 0 0
     [(new_Chunk 1)\<lparr>pending_bytes := Some 4, max_chunk_size_bytes := Some 4,
          min_delay_microseconds := Some 10\<rparr>,
        (new_Chunk 1)\<lparr>offset := 4, pending_bytes := Some 6\<rparr>] = Some (length ''aaaaaaaaaa'') \<and>
   (case wt_begin send_write_chunk (new_WriteTransfer 1 ''aaaaaaaaaa'') (snd (write 1 ''aaaaaaaaaa'' new_Manager)) of
    (x0, t0, m0) \<Rightarrow>
      (case serve
         [(new_Chunk 1)\<lparr>pending_bytes := Some 4, max_chunk_size_bytes := Some 4,
          min_delay_microseconds := Some 10\<rparr>,
        (new_Chunk 1)\<lparr>offset := 4, pending_bytes := Some 6\<rparr>] t0 m0 of
         None \<Rightarrow> False
       | Some (t1, m1) \<Rightarrow>
           (case finish end_write_transfer OK t1 m1 of
              (x, t', m') \<Rightarrow>
                x0 = None \<and> tr_done t' \<and> tr_status t' = OK \<and> asleep t' = 0 \<and>
                (\<forall>t. (remaining_bytes (next_chunk t) = Some 0) =
                   (int (length (tr_data t)) - int (w_offset t) \<le> int (w_max_chunk_size t))) \<and>
                (\<exists>sent. write_sent m' = write_sent (snd (write 1 ''aaaaaaaaaa'' new_Manager)) @ new_Chunk 1 # sent \<and>
                   (\<forall>c \<in> set sent. status c = None \<and>
                      (remaining_bytes c = Some 0) = (offset c + length (data c) = length ''aaaaaaaaaa'')) \<and>
                   sorted (map offset (new_Chunk 1 # sent)) \<and>
                   concat (map data (new_Chunk 1 # sent)) = ''aaaaaaaaaa'' \<and>
                   sum_list (map (length \<circ> data) (new_Chunk 1 # sent)) = length ''aaaaaaaaaa'' \<and>
                   (''aaaaaaaaaa'' \<noteq> [] \<longrightarrow> remaining_bytes (last (new_Chunk 1 # sent)) = Some 0))))) \<and>
   (case wt_begin send_write_chunk (new_WriteTransfer 1 ''aaaaaaaaaa'') (snd (write 1 ''aaaaaaaaaa'' new_Manager)) of
    (x0, t0, m0) \<Rightarrow>
      (case serve
         [(new_Chunk 1)\<lparr>pending_bytes := Some 4, max_chunk_size_bytes := Some 4,
          min_delay_microseconds := Some 10\<rparr>,
        (new_Chunk 1)\<lparr>offset := 4, pending_bytes := Some 6\<rparr>] t0 m0 of
         None \<Rightarrow> False
       | Some (t1, m1) \<Rightarrow>
           (case finish end_write_transfer OK t1 m1 of
              (x, t', m') \<Rightarrow>
                map (\<lambda>c. (offset c, data c, remaining_bytes c)) (write_sent m') =
                  [(0, [], None), (0, ''aaaa'', None), (4, ''aaaa'', None),
                   (8, ''aa'', Some 0)])))"
proof -
  have h1: "write_stream (snd (write 1 ''aaaaaaaaaa'' new_Manager)) \<noteq> None"
    by (simp add: model_defs)
  have h2: "requested (length ''aaaaaaaaaa'') 0 0
     [(new_Chunk 1)\<lparr>pending_bytes := Some 4, max_chunk_size_bytes := Some 4,
          min_delay_microseconds := Some 10\<rparr>,
        (new_Chunk 1)\<lparr>offset := 4, pending_bytes := Some 6\<rparr>] = Some (length ''aaaaaaaaaa'')"
    by (simp add: window_def field_value_def new_Chunk_def)
  have v: "(case wt_begin send_write_chunk (new_WriteTransfer 1 ''aaaaaaaaaa'') (snd (write 1 ''aaaaaaaaaa'' new_Manager)) of
    (x0, t0, m0) \<Rightarrow>
      (case serve
         [(new_Chunk 1)\<lparr>pending_bytes := Some 4, max_chunk_size_bytes := Some 4,
          min_delay_microseconds := Some 10\<rparr>,
        (new_Chunk 1)\<lparr>offset := 4, pending_bytes := Some 6\<rparr>] t0 m0 of
         None \<Rightarrow> False
       | Some (t1, m1) \<Rightarrow>
           (case finish end_write_transfer OK t1 m1 of
              (x, t', m') \<Rightarrow>
                map (\<lambda>c. (offset c, data c, remaining_bytes c)) (write_sent m') =
                  [(0, [], None), (0, ''aaaa'', None), (4, ''aaaa'', None),
                   (8, ''aa'', Some 0)])))"
    by (simp add: model_defs send_loop.simps resume_until_return.simps handle_alone_def)
  from write_in_order_sends_payload [OF h1 h2, of 1] h1 h2 v show ?thesis
    by blast
qed

end
